theory Spec2Isabelle
  imports Complex_Main "HOL-Library.Word" "HOL-Library.Multiset" "HOL-Library.AList"
begin

section \<open>Time, durations and conversions\<close>

text \<open>
  A \<^verbatim>\<open>time.Time\<close> is an instant, counted here in nanoseconds since the Unix epoch; its
  range is far wider than any duration, so instants are integers. A \<^verbatim>\<open>time.Duration\<close>
  is an \<^verbatim>\<open>int64\<close> count of nanoseconds: a 64-bit word, read signed, so that negation and
  addition wrap as in Go. An unsigned \<^verbatim>\<open>uint64\<close> is a 64-bit word as well, compared
  unsigned; the conversion \<^verbatim>\<open>int(x)\<close> of a \<^verbatim>\<open>uint64\<close> reads the same bits signed.
\<close>

type_synonym Time = int

type_synonym Duration = "64 word"

definition time_Add :: "Time \<Rightarrow> Duration \<Rightarrow> Time" where
  "time_Add t d = t + sint d"

definition Before :: "Time \<Rightarrow> Time \<Rightarrow> bool" where
  "Before t u = (t < u)"

text \<open>The zero value \<^verbatim>\<open>time.Time{}\<close>: January 1 of year 1, 00:00 UTC.\<close>

definition zero_Time :: Time where
  "zero_Time = - 62135596800000000000"

definition Minute :: Duration where
  "Minute = 60000000000"

definition Hour :: Duration where
  "Hour = 3600000000000"

text \<open>\<^verbatim>\<open>cache.go\<close>: the two distinguished TTL values.\<close>

definition DefaultTTL :: Duration where
  "DefaultTTL = 0"

definition UnlimitedTTL :: Duration where
  "UnlimitedTTL = - 1"

text \<open>
  A \<^verbatim>\<open>float64\<close> is represented by the real number it denotes. Arithmetic rounds as
  IEEE 754 does, to the nearest \<^verbatim>\<open>float64\<close> with ties to the even significand: the
  unit in the last place of \<open>x\<close> is \<open>2\<close> to the power \<open>\<lfloor>log\<^sub>2 \<bar>x\<bar>\<rfloor> - 52\<close>, and not below
  \<open>- 1074\<close> (the subnormal range). A real that is not a \<^verbatim>\<open>float64\<close>, such as \<open>1 / 10\<close>,
  stands for the \<^verbatim>\<open>float64\<close> nearest to it (the constant Go would store), so every
  operation rounds its operands first; on a \<^verbatim>\<open>float64\<close> that changes nothing.
  Infinities, NaN and results beyond the largest finite \<^verbatim>\<open>float64\<close> are not modelled.
\<close>

definition round_half_even :: "real \<Rightarrow> int" where
  "round_half_even q =
    (let f = \<lfloor>q\<rfloor>; d = q - of_int f
     in if d < 1 / 2 then f else if 1 / 2 < d then f + 1 else if even f then f else f + 1)"

definition float64_ulp_exponent :: "real \<Rightarrow> int" where
  "float64_ulp_exponent x = max (\<lfloor>log 2 \<bar>x\<bar>\<rfloor> - 52) (- 1074)"

definition float64_round :: "real \<Rightarrow> real" where
  "float64_round x =
    (if x = 0 then 0
     else real_of_int (round_half_even (x / 2 powi float64_ulp_exponent x)) *
          2 powi float64_ulp_exponent x)"

definition float64_mul :: "real \<Rightarrow> real \<Rightarrow> real" where
  "float64_mul x y = float64_round (float64_round x * float64_round y)"

definition float64_sub :: "real \<Rightarrow> real \<Rightarrow> real" where
  "float64_sub x y = float64_round (float64_round x - float64_round y)"

text \<open>The conversion \<^verbatim>\<open>float64(i)\<close> of an integer.\<close>

definition float64_of_int :: "int \<Rightarrow> real" where
  "float64_of_int i = float64_round (real_of_int i)"

text \<open>
  The conversions \<^verbatim>\<open>int(x)\<close> and \<^verbatim>\<open>time.Duration(x)\<close> of a float truncate towards zero.
  Go leaves the result open when the truncation does not fit the integer type; the
  model then keeps the integer (\<open>int_of_float\<close>) or its low 64 bits
  (\<open>Duration_of_float\<close>).
\<close>

definition int_of_float :: "real \<Rightarrow> int" where
  "int_of_float x = (if 0 \<le> x then \<lfloor>x\<rfloor> else \<lceil>x\<rceil>)"

definition Duration_of_float :: "real \<Rightarrow> Duration" where
  "Duration_of_float x = word_of_int (int_of_float x)"

definition float64_of_Duration :: "Duration \<Rightarrow> real" where
  "float64_of_Duration d = float64_of_int (sint d)"

text \<open>
  \<^verbatim>\<open>ts\<close> (\<^verbatim>\<open>trait.go\<close>): \<^verbatim>\<open>t.UnixNano()\<close>, the nanoseconds since the Unix epoch as an
  \<^verbatim>\<open>int64\<close>: outside the \<^verbatim>\<open>int64\<close> range the count wraps.
\<close>

definition ts :: "Time \<Rightarrow> int" where
  "ts t = sint (word_of_int t :: 64 word)"

section \<open>Configuration, metrics, request context, errors\<close>

text \<open>
  Modelled from the spec: the metric names (\<^verbatim>\<open>MetricHit\<close>, ...) are constants whose
  declaration is not among the sources; the spec lists them as
  hit, miss, expired, write, delete, evict, items.
\<close>

datatype metric = MetricHit | MetricMiss | MetricExpired | MetricWrite | MetricDelete
  | MetricEvict | MetricItems

text \<open>
  A stats tracker is represented by what it has been sent: the list of
  \<^verbatim>\<open>Add\<close>/\<^verbatim>\<open>Set\<close> calls so far. A \<^verbatim>\<open>nil\<close> tracker is \<open>None\<close>. Log output is not
  modelled.
\<close>

type_synonym StatsTracker = "(metric \<times> real) list"

definition stat_Add :: "StatsTracker option \<Rightarrow> metric \<Rightarrow> real \<Rightarrow> StatsTracker option" where
  "stat_Add st m x = (case st of None \<Rightarrow> None | Some l \<Rightarrow> Some (l @ [(m, x)]))"

text \<open>
  Modelled from the spec: the \<^verbatim>\<open>Config\<close> struct is used by the sources but declared
  elsewhere. Its fields are those the sources read, with the types their uses fix:
  durations, the jitter and the evict fraction as \<^verbatim>\<open>float64\<close>, and the two soft limits
  (a byte and an entry threshold) as \<^verbatim>\<open>uint64\<close>: the heap limit is compared with the
  \<^verbatim>\<open>uint64\<close> \<^verbatim>\<open>HeapInuse\<close>, the count limit is converted by \<^verbatim>\<open>int(...)\<close>.
\<close>

record Config =
  Name :: string
  Stats :: "StatsTracker option"
  TimeToLive :: Duration
  ExpirationJitter :: real
  DeleteExpiredAfter :: Duration
  DeleteExpiredJobInterval :: Duration
  ItemsCountReportInterval :: Duration
  HeapInUseSoftLimit :: "64 word"
  CountSoftLimit :: "64 word"
  EvictFraction :: real

text \<open>The zero value \<^verbatim>\<open>Config{}\<close>.\<close>

definition zero_Config :: Config where
  "zero_Config =
    \<lparr>Name = [], Stats = None, TimeToLive = 0, ExpirationJitter = 0,
     DeleteExpiredAfter = 0, DeleteExpiredJobInterval = 0, ItemsCountReportInterval = 0,
     HeapInUseSoftLimit = 0, CountSoftLimit = 0, EvictFraction = 0\<rparr>"

text \<open>
  Modelled from the spec: the request context is consulted through \<^verbatim>\<open>TTL(ctx)\<close> and
  \<^verbatim>\<open>SkipRead(ctx)\<close> only (both declared outside the sources): a per-call TTL override,
  \<open>0\<close> when absent, and the skip-read flag.
\<close>

record Context =
  TTL :: Duration
  SkipRead :: bool

text \<open>
  The errors a read returns. \<open>ErrExpired\<close> carries the entry (\<^verbatim>\<open>errExpired{entry}\<close>);
  \<open>NilDereference\<close> is the run-time panic of reading a field through a \<^verbatim>\<open>nil\<close> entry
  pointer.
\<close>

datatype 'en error = ErrNotFound | ErrExpired 'en | NilDereference

section \<open>The exported Trait (trait.go)\<close>

text \<open>\<^verbatim>\<open>TraitEntry\<close>: key, value and expiration as an \<^verbatim>\<open>int64\<close> timestamp.\<close>

record 'v TraitEntry =
  TK :: string
  TV :: 'v
  TE :: int

text \<open>
  The three callbacks act on the backend's state \<open>'b\<close>; a \<^verbatim>\<open>nil\<close> callback is \<open>None\<close>.
\<close>

record 'b Trait =
  DeleteExpired :: "(Time \<Rightarrow> 'b \<Rightarrow> 'b) option"
  TLen :: "('b \<Rightarrow> int) option"
  EvictOldest :: "(real \<Rightarrow> 'b \<Rightarrow> int \<times> 'b) option"
  TConfig :: Config
  TStat :: "StatsTracker option"

datatype worker = ReportItemsCount | Janitor

definition NewTrait :: "Config \<Rightarrow> ('b Trait \<Rightarrow> 'b Trait) list \<Rightarrow> 'b Trait \<times> worker list" where
  "NewTrait config0 options =
    (let config1 = (if DeleteExpiredAfter config0 = 0
                    then config0\<lparr>DeleteExpiredAfter := 24 * Hour\<rparr> else config0);
         config2 = (if DeleteExpiredJobInterval config1 = 0
                    then config1\<lparr>DeleteExpiredJobInterval := Hour\<rparr> else config1);
         config3 = (if ItemsCountReportInterval config2 = 0
                    then config2\<lparr>ItemsCountReportInterval := Minute\<rparr> else config2);
         config4 = (if ExpirationJitter config3 = 0
                    then config3\<lparr>ExpirationJitter := 1 / 10\<rparr> else config3);
         config = (if TimeToLive config4 = 0
                   then config4\<lparr>TimeToLive := 5 * Minute\<rparr> else config4);
         t0 = \<lparr>DeleteExpired = None, TLen = None, EvictOldest = None,
               TConfig = config, TStat = Stats config\<rparr>;
         t = foldl (\<lambda>t opt. opt t) t0 options
     in (t,
         (if Stats config \<noteq> None \<and> TLen t \<noteq> None then [ReportItemsCount] else []) @
         (if DeleteExpired t \<noteq> None \<or> EvictOldest t \<noteq> None then [Janitor] else [])))"

text \<open>
  \<^verbatim>\<open>PrepareRead\<close>: \<open>now\<close> is the reading of \<^verbatim>\<open>ts(time.Now())\<close>. The result is the
  returned pair (value or error) and the tracker after the metric was sent.
\<close>

definition PrepareRead ::
  "'b Trait \<Rightarrow> 'v TraitEntry option \<Rightarrow> bool \<Rightarrow> int \<Rightarrow> ('v TraitEntry error + 'v) \<times> StatsTracker option" where
  "PrepareRead c cacheEntry found now =
    (if \<not> found then (Inl ErrNotFound, stat_Add (TStat c) MetricMiss 1)
     else case cacheEntry of
       None \<Rightarrow> (Inl NilDereference, TStat c)
     | Some e \<Rightarrow>
         if TE e \<noteq> 0 \<and> TE e < now
         then (Inl (ErrExpired e), stat_Add (TStat c) MetricExpired 1)
         else (Inr (TV e), stat_Add (TStat c) MetricHit 1))"

text \<open>
  \<^verbatim>\<open>Trait.TTL\<close>: \<open>rnd\<close> is the draw of \<^verbatim>\<open>rand.Float64()\<close>, in \<open>[0, 1)\<close>.
\<close>

definition Trait_TTL :: "'b Trait \<Rightarrow> Context \<Rightarrow> real \<Rightarrow> Duration" where
  "Trait_TTL c ctx rnd =
    (if TTL ctx = DefaultTTL \<and> TimeToLive (TConfig c) = UnlimitedTTL then 0
     else
       let ttl = (if TTL ctx = DefaultTTL then TimeToLive (TConfig c) else TTL ctx)
       in if ExpirationJitter (TConfig c) > 0
          then ttl + Duration_of_float
                 (float64_mul
                    (float64_mul (float64_of_Duration ttl) (ExpirationJitter (TConfig c)))
                    (float64_sub rnd (1 / 2)))
          else ttl)"

definition expireAt :: "'b Trait \<Rightarrow> Context \<Rightarrow> real \<Rightarrow> Time \<Rightarrow> Duration \<times> int" where
  "expireAt c ctx rnd now =
    (let ttl = Trait_TTL c ctx rnd
     in if ttl \<noteq> 0 then (ttl, ts (time_Add now ttl)) else (0, 0))"

definition Trait_heapInUseOverflow :: "'b Trait \<Rightarrow> 64 word \<Rightarrow> bool" where
  "Trait_heapInUseOverflow c heapInuse =
    (if HeapInUseSoftLimit (TConfig c) = 0 then False
     else heapInuse \<ge> HeapInUseSoftLimit (TConfig c))"

definition Trait_countOverflow :: "'b Trait \<Rightarrow> 'b \<Rightarrow> bool" where
  "Trait_countOverflow c b =
    (if CountSoftLimit (TConfig c) = 0 then False
     else case TLen c of
       None \<Rightarrow> False
     | Some len \<Rightarrow> len b \<ge> sint (CountSoftLimit (TConfig c)))"

text \<open>
  One timer tick of \<^verbatim>\<open>Trait.janitor\<close>. \<open>now\<close> is the clock reading, \<open>heapInuse\<close> the
  figure \<^verbatim>\<open>runtime.ReadMemStats\<close> reports. Besides the backend's state and the
  tracker, the tick returns the callbacks it invoked, in order, with their arguments.
\<close>

datatype call = DeleteExpiredCall Time | EvictOldestCall real

definition Trait_janitor_tick ::
  "'b Trait \<Rightarrow> Time \<Rightarrow> 64 word \<Rightarrow> 'b \<Rightarrow> 'b \<times> StatsTracker option \<times> call list" where
  "Trait_janitor_tick c now heapInuse b =
    (let (b1, calls1) =
           (case DeleteExpired c of
              None \<Rightarrow> (b, [])
            | Some del \<Rightarrow>
                let expirationBoundary = time_Add now (- DeleteExpiredAfter (TConfig c))
                in (del expirationBoundary b, [DeleteExpiredCall expirationBoundary]))
     in case EvictOldest c of
          None \<Rightarrow> (b1, TStat c, calls1)
        | Some evict \<Rightarrow>
            if Trait_heapInUseOverflow c heapInuse \<or> Trait_countOverflow c b1
            then
              let frac = (if EvictFraction (TConfig c) = 0 then 1 / 10
                          else EvictFraction (TConfig c));
                  (cnt, b2) = evict frac b1
              in (b2, stat_Add (TStat c) MetricEvict (float64_of_int cnt),
                  calls1 @ [EvictOldestCall frac])
            else (b1, TStat c, calls1))"

section \<open>The unexported trait and its entries\<close>

text \<open>\<^verbatim>\<open>entry\<close>: key bytes, value, and expiration as a \<^verbatim>\<open>time.Time\<close>.\<close>

record 'v entry =
  K :: string
  V :: 'v
  E :: Time

record trait =
  Config :: Config
  Stat :: "StatsTracker option"

text \<open>
  \<^verbatim>\<open>newTrait\<close> returns the trait and, as a list, the background workers it starts
  (their scheduling is not modelled).
\<close>

definition newTrait :: "Config \<Rightarrow> trait \<times> worker list" where
  "newTrait config0 =
    (let config1 = (if DeleteExpiredAfter config0 = 0
                    then config0\<lparr>DeleteExpiredAfter := 24 * Hour\<rparr> else config0);
         config2 = (if DeleteExpiredJobInterval config1 = 0
                    then config1\<lparr>DeleteExpiredJobInterval := Hour\<rparr> else config1);
         config3 = (if ItemsCountReportInterval config2 = 0
                    then config2\<lparr>ItemsCountReportInterval := Minute\<rparr> else config2);
         config4 = (if ExpirationJitter config3 = 0
                    then config3\<lparr>ExpirationJitter := 1 / 10\<rparr> else config3);
         config = (if TimeToLive config4 = 0
                   then config4\<lparr>TimeToLive := 5 * Minute\<rparr> else config4)
     in (\<lparr>Config = config, Stat = Stats config\<rparr>,
         (if Stats config \<noteq> None then [ReportItemsCount] else []) @ [Janitor]))"

definition prepareRead ::
  "trait \<Rightarrow> 'v entry option \<Rightarrow> bool \<Rightarrow> Time \<Rightarrow> ('v entry error + 'v) \<times> trait" where
  "prepareRead c cacheEntry found now =
    (if \<not> found then (Inl ErrNotFound, c\<lparr>Stat := stat_Add (Stat c) MetricMiss 1\<rparr>)
     else case cacheEntry of
       None \<Rightarrow> (Inl NilDereference, c)
     | Some e \<Rightarrow>
         if Before (E e) now
         then (Inl (ErrExpired e), c\<lparr>Stat := stat_Add (Stat c) MetricExpired 1\<rparr>)
         else (Inr (V e), c\<lparr>Stat := stat_Add (Stat c) MetricHit 1\<rparr>))"

definition trait_TTL :: "trait \<Rightarrow> Context \<Rightarrow> real \<Rightarrow> Duration" where
  "trait_TTL c ctx rnd =
    (let ttl = (if TTL ctx = DefaultTTL then TimeToLive (Config c) else TTL ctx)
     in if ExpirationJitter (Config c) > 0
        then ttl + Duration_of_float
               (float64_mul
                  (float64_mul (float64_of_Duration ttl) (ExpirationJitter (Config c)))
                  (float64_sub rnd (1 / 2)))
        else ttl)"

definition NotifyWritten :: "trait \<Rightarrow> trait" where
  "NotifyWritten c = c\<lparr>Stat := stat_Add (Stat c) MetricWrite 1\<rparr>"

definition NotifyDeleted :: "trait \<Rightarrow> trait" where
  "NotifyDeleted c = c\<lparr>Stat := stat_Add (Stat c) MetricDelete 1\<rparr>"

definition NotifyExpiredAll :: "trait \<Rightarrow> nat \<Rightarrow> trait" where
  "NotifyExpiredAll c cnt =
    c\<lparr>Stat := stat_Add (Stat c) MetricExpired (float64_of_int (int cnt))\<rparr>"

definition NotifyDeletedAll :: "trait \<Rightarrow> nat \<Rightarrow> trait" where
  "NotifyDeletedAll c cnt =
    c\<lparr>Stat := stat_Add (Stat c) MetricDelete (float64_of_int (int cnt))\<rparr>"

section \<open>The in-memory backend syncMap\<close>

text \<open>
  The \<^verbatim>\<open>sync.Map\<close> is an association list from key strings to entries: \<^verbatim>\<open>Load\<close> is
  \<open>map_of\<close>, \<^verbatim>\<open>Store\<close> is \<open>AList.update\<close>, \<^verbatim>\<open>Delete\<close> is \<open>AList.delete\<close>, and \<^verbatim>\<open>Range\<close>
  visits the pairs in the order of the list. That order stands for the unspecified
  order of \<^verbatim>\<open>Range\<close>. Field \<open>tr\<close> is the field \<^verbatim>\<open>t\<close> of the source. Operations run one
  at a time: concurrency is not modelled.
\<close>

record 'v syncMap =
  data :: "(string \<times> 'v entry) list"
  tr :: trait

definition NewSyncMap :: "(Config \<Rightarrow> Config) list \<Rightarrow> 'v syncMap" where
  "NewSyncMap options =
    (let cfg = foldl (\<lambda>cfg option. option cfg) zero_Config options
     in \<lparr>data = [], tr = fst (newTrait cfg)\<rparr>)"

definition Read ::
  "'v syncMap \<Rightarrow> Context \<Rightarrow> string \<Rightarrow> Time \<Rightarrow> ('v entry error + 'v) \<times> 'v syncMap" where
  "Read c ctx key now =
    (if SkipRead ctx then (Inl ErrNotFound, c)
     else case map_of (data c) key of
       Some cacheEntry \<Rightarrow>
         (let (r, t') = prepareRead (tr c) (Some cacheEntry) True now in (r, c\<lparr>tr := t'\<rparr>))
     | None \<Rightarrow>
         (let (r, t') = prepareRead (tr c) None False now in (r, c\<lparr>tr := t'\<rparr>)))"

text \<open>
  \<^verbatim>\<open>Write\<close>: \<open>rnd\<close> is the jitter draw and \<open>now\<close> the clock reading. The returned error
  is always \<^verbatim>\<open>nil\<close>.
\<close>

definition Write ::
  "'v syncMap \<Rightarrow> Context \<Rightarrow> string \<Rightarrow> 'v \<Rightarrow> real \<Rightarrow> Time \<Rightarrow> 'v entry error option \<times> 'v syncMap" where
  "Write c ctx k v rnd now =
    (let ttl = trait_TTL (tr c) ctx rnd;
         key = k
     in (None,
         c\<lparr>data := AList.update k \<lparr>K = key, V = v, E = time_Add now ttl\<rparr> (data c),
           tr := NotifyWritten (tr c)\<rparr>))"

definition Delete ::
  "'v syncMap \<Rightarrow> Context \<Rightarrow> string \<Rightarrow> 'v entry error option \<times> 'v syncMap" where
  "Delete c ctx key =
    (None, c\<lparr>data := AList.delete key (data c), tr := NotifyDeleted (tr c)\<rparr>)"

definition ExpireAll :: "'v syncMap \<Rightarrow> Context \<Rightarrow> Time \<Rightarrow> 'v syncMap" where
  "ExpireAll c ctx now =
    (let start = now;
         cnt = length (data c)
     in c\<lparr>data := map (\<lambda>(key, cacheEntry). (key, cacheEntry\<lparr>E := start\<rparr>)) (data c),
          tr := NotifyExpiredAll (tr c) cnt\<rparr>)"

definition DeleteAll :: "'v syncMap \<Rightarrow> Context \<Rightarrow> 'v syncMap" where
  "DeleteAll c ctx =
    (let cnt = length (data c)
     in c\<lparr>data := foldl (\<lambda>d (key, _). AList.delete key d) (data c) (data c),
          tr := NotifyDeletedAll (tr c) cnt\<rparr>)"

definition Len :: "'v syncMap \<Rightarrow> nat" where
  "Len c = length (data c)"

text \<open>
  \<^verbatim>\<open>Walk\<close>: the callback is a closure; \<open>'s\<close> is the state it closes over, and a call
  returns the error (\<open>None\<close> for \<^verbatim>\<open>nil\<close>) and the closure's state afterwards.
\<close>

fun Range_Walk ::
  "('s \<Rightarrow> 'v entry \<Rightarrow> 'e option \<times> 's) \<Rightarrow> (string \<times> 'v entry) list \<Rightarrow> nat \<Rightarrow> 's
    \<Rightarrow> nat \<times> 'e option \<times> 's" where
  "Range_Walk walkFn [] n s = (n, None, s)"
| "Range_Walk walkFn ((key, val) # rest) n s =
    (case walkFn s val of
       (Some err, s') \<Rightarrow> (n, Some err, s')
     | (None, s') \<Rightarrow> Range_Walk walkFn rest (n + 1) s')"

definition Walk ::
  "'v syncMap \<Rightarrow> ('s \<Rightarrow> 'v entry \<Rightarrow> 'e option \<times> 's) \<Rightarrow> 's \<Rightarrow> nat \<times> 'e option \<times> 's" where
  "Walk c walkFn s = Range_Walk walkFn (data c) 0 s"

text \<open>
  \<^verbatim>\<open>Dump\<close>: \<open>Encode\<close> is the gob encoder's \<^verbatim>\<open>Encode\<close> on the sink \<open>w\<close>; it returns the
  error, if any, and the sink afterwards.
\<close>

definition Dump ::
  "'v syncMap \<Rightarrow> ('w \<Rightarrow> 'v entry \<Rightarrow> 'e option \<times> 'w) \<Rightarrow> 'w \<Rightarrow> nat \<times> 'e option \<times> 'w" where
  "Dump c Encode w = Walk c (\<lambda>w e. Encode w e) w"

text \<open>
  \<^verbatim>\<open>Restore\<close> decodes every record into one variable \<^verbatim>\<open>e\<close> and stores a copy of the
  struct: the copy's \<^verbatim>\<open>K\<close> is the same slice, so it shares its bytes with the variable.
  The gob decoder writes a record's key into the variable's slice in place when its
  capacity suffices, and into a new array of exactly the key's length otherwise; a
  field that a record does not carry (an empty key) is left as it is. So the bytes of
  entries stored earlier in the same call change when a later key is decoded in
  place.

  The source is the sequence of outcomes of the successive \<^verbatim>\<open>Decode\<close> calls. A decoded
  record gives the key bytes it carries (\<open>K\<close>, empty when absent) and the value and
  expiration the call leaves in the variable (\<open>V\<close>, \<open>E\<close>). A failed call gives its error,
  which is not \<^verbatim>\<open>io.EOF\<close>, and the key bytes it had decoded before failing (empty when
  none). The end of the list is \<^verbatim>\<open>io.EOF\<close>.

  \<open>Restore_var\<close> is the slice \<^verbatim>\<open>e.K\<close>: its backing array \<open>buf\<close> (as long as the
  capacity), its length \<open>klen\<close>, and the keys under which the entries that share the
  array are stored.
\<close>

datatype ('v, 'e) decoded = Decoded "'v entry" | DecodeError 'e string

record Restore_var =
  buf :: string
  klen :: nat
  shared :: "string list"

definition decode_K ::
  "string \<Rightarrow> Restore_var \<Rightarrow> (string \<times> 'v entry) list \<Rightarrow> Restore_var \<times> (string \<times> 'v entry) list" where
  "decode_K kb var d =
    (if kb = [] then (var, d)
     else if length kb \<le> length (buf var)
     then (let buf' = kb @ drop (length kb) (buf var)
           in (var\<lparr>buf := buf', klen := length kb\<rparr>,
               map (\<lambda>(key, x). if key \<in> set (shared var)
                                then (key, x\<lparr>K := take (length (K x)) buf'\<rparr>)
                                else (key, x)) d))
     else (\<lparr>buf = kb, klen = length kb, shared = []\<rparr>, d))"

fun Restore_loop ::
  "('v, 'e) decoded list \<Rightarrow> 'v syncMap \<Rightarrow> nat \<Rightarrow> Restore_var \<Rightarrow> nat \<times> 'e option \<times> 'v syncMap" where
  "Restore_loop [] c n var = (n, None, c)"
| "Restore_loop (DecodeError err kb # rest) c n var =
    (n, Some err, c\<lparr>data := snd (decode_K kb var (data c))\<rparr>)"
| "Restore_loop (Decoded r # rest) c n var =
    (let (var', d) = decode_K (K r) var (data c);
         key = take (klen var') (buf var');
         e = \<lparr>K = key, V = V r, E = E r\<rparr>
     in Restore_loop rest (c\<lparr>data := AList.update key e d\<rparr>) (n + 1)
          (var'\<lparr>shared := key # shared var'\<rparr>))"

definition Restore :: "'v syncMap \<Rightarrow> ('v, 'e) decoded list \<Rightarrow> nat \<times> 'e option \<times> 'v syncMap" where
  "Restore c r = Restore_loop r c 0 \<lparr>buf = [], klen = 0, shared = []\<rparr>"

text \<open>
  \<^verbatim>\<open>evictOldest\<close>. The local struct \<^verbatim>\<open>en\<close> is the pair (key, expireAt).
  \<^verbatim>\<open>sort.Slice\<close> is a parameter: the library promises a sorted permutation, not a
  stable one. Indexing \<^verbatim>\<open>entries[i]\<close> past the end panics. \<open>evictItems_of\<close> is the
  count \<^verbatim>\<open>int(float64(len(entries)) * evictFraction)\<close>.
\<close>

type_synonym en = "string \<times> Time"

datatype panic = IndexOutOfRange

definition en_less :: "en \<Rightarrow> en \<Rightarrow> bool" where
  "en_less a b = Before (snd a) (snd b)"

function evict_loop ::
  "en list \<Rightarrow> int \<Rightarrow> nat \<Rightarrow> (string \<times> 'v entry) list \<Rightarrow> panic + (string \<times> 'v entry) list" where
  "evict_loop entries evictItems i d =
    (if int i < evictItems
     then (if i < length entries
           then evict_loop entries evictItems (Suc i) (AList.delete (fst (entries ! i)) d)
           else Inl IndexOutOfRange)
     else Inr d)"
  by pat_completeness auto
termination
  by (relation "measure (\<lambda>(entries, evictItems, i, d). nat (evictItems - int i))") auto

declare evict_loop.simps [simp del]

text \<open>The \<^verbatim>\<open>Range\<close> loop of \<^verbatim>\<open>evictOldest\<close> that collects all keys and expirations.\<close>

definition collect_entries :: "(string \<times> 'v entry) list \<Rightarrow> en list" where
  "collect_entries d = map (\<lambda>(key, i). (K i, E i)) d"

definition evictFraction_of :: "'v syncMap \<Rightarrow> real" where
  "evictFraction_of c =
    (if EvictFraction (Config (tr c)) = 0 then 1 / 10 else EvictFraction (Config (tr c)))"

definition evictItems_of :: "nat \<Rightarrow> real \<Rightarrow> int" where
  "evictItems_of len evictFraction =
    int_of_float (float64_mul (float64_of_int (int len)) evictFraction)"

definition evictOldest ::
  "((en \<Rightarrow> en \<Rightarrow> bool) \<Rightarrow> en list \<Rightarrow> en list) \<Rightarrow> 'v syncMap \<Rightarrow> panic + 'v syncMap" where
  "evictOldest sort_Slice c =
    (let evictFraction = evictFraction_of c;
         entries = sort_Slice en_less (collect_entries (data c));
         evictItems = evictItems_of (length entries) evictFraction;
         t' = (tr c)\<lparr>Stat := stat_Add (Stat (tr c)) MetricEvict (float64_of_int evictItems)\<rparr>
     in case evict_loop entries evictItems 0 (data c) of
          Inl p \<Rightarrow> Inl p
        | Inr d \<Rightarrow> Inr (c\<lparr>data := d, tr := t'\<rparr>))"

definition syncMap_heapInUseOverflow :: "'v syncMap \<Rightarrow> 64 word \<Rightarrow> bool" where
  "syncMap_heapInUseOverflow c heapInuse =
    (if HeapInUseSoftLimit (Config (tr c)) = 0 then False
     else heapInuse \<ge> HeapInUseSoftLimit (Config (tr c)))"

definition syncMap_countOverflow :: "'v syncMap \<Rightarrow> bool" where
  "syncMap_countOverflow c =
    (if CountSoftLimit (Config (tr c)) = 0 then False
     else int (Len c) \<ge> sint (CountSoftLimit (Config (tr c))))"

text \<open>
  The \<^verbatim>\<open>Range\<close> loop of \<^verbatim>\<open>deleteExpiredBefore\<close>: every visited entry that expired
  before the boundary is deleted by its key.
\<close>

definition Range_deleteExpired :: "(string \<times> 'v entry) list \<Rightarrow> Time \<Rightarrow> (string \<times> 'v entry) list" where
  "Range_deleteExpired d expirationBoundary =
    foldl (\<lambda>d (key, cacheEntry).
             if Before (E cacheEntry) expirationBoundary then AList.delete key d else d) d d"

definition deleteExpiredBefore ::
  "((en \<Rightarrow> en \<Rightarrow> bool) \<Rightarrow> en list \<Rightarrow> en list) \<Rightarrow> 'v syncMap \<Rightarrow> Time \<Rightarrow> 64 word
    \<Rightarrow> panic + 'v syncMap" where
  "deleteExpiredBefore sort_Slice c expirationBoundary heapInuse =
    (let c1 = c\<lparr>data := Range_deleteExpired (data c) expirationBoundary\<rparr>
     in if syncMap_heapInUseOverflow c1 heapInuse \<or> syncMap_countOverflow c1
        then evictOldest sort_Slice c1
        else Inr c1)"

text \<open>One timer tick of \<^verbatim>\<open>trait.janitor\<close> on the backend \<open>b\<close>.\<close>

definition janitor_tick ::
  "((en \<Rightarrow> en \<Rightarrow> bool) \<Rightarrow> en list \<Rightarrow> en list) \<Rightarrow> trait \<Rightarrow> 'v syncMap \<Rightarrow> Time \<Rightarrow> 64 word
    \<Rightarrow> panic + 'v syncMap" where
  "janitor_tick sort_Slice c b now heapInuse =
    (let expirationBoundary = time_Add now (- DeleteExpiredAfter (Config c))
     in deleteExpiredBefore sort_Slice b expirationBoundary heapInuse)"

text \<open>
  What \<^verbatim>\<open>sort.Slice\<close> promises for the comparison \<open>en_less\<close>: the result is a
  permutation of the slice in which no element is less than an earlier one.
\<close>

definition sort_Slice_contract :: "((en \<Rightarrow> en \<Rightarrow> bool) \<Rightarrow> en list \<Rightarrow> en list) \<Rightarrow> bool" where
  "sort_Slice_contract sort_Slice =
    (\<forall>xs. mset (sort_Slice en_less xs) = mset xs \<and>
          sorted_wrt (\<lambda>a b. \<not> en_less b a) (sort_Slice en_less xs))"

text \<open>
  A store is well keyed when its keys are distinct and every entry is stored under its
  own key bytes. \<^verbatim>\<open>Write\<close> keeps a store well keyed; \<^verbatim>\<open>Restore\<close> does not.
\<close>

definition store_inv :: "'v syncMap \<Rightarrow> bool" where
  "store_inv c = (distinct (map fst (data c)) \<and> list_all (\<lambda>(key, e). K e = key) (data c))"

section \<open>Notions used to state the properties\<close>

text \<open>
  The state of a callback's closure after its first \<open>i\<close> calls on the entries \<open>es\<close>, and
  what it means for a traversal that returned \<open>(n, err, s')\<close> to have stopped at the
  first error: the first \<open>n\<close> calls returned no error; with no error returned, all
  entries were visited; with the error \<open>x\<close> returned, call number \<open>n\<close> returned \<open>x\<close> and
  was the last call made.
\<close>

definition walk_state :: "('s \<Rightarrow> 'a \<Rightarrow> 'e option \<times> 's) \<Rightarrow> 's \<Rightarrow> 'a list \<Rightarrow> nat \<Rightarrow> 's" where
  "walk_state walkFn s es i = foldl (\<lambda>s e. snd (walkFn s e)) s (take i es)"

definition stops_at_first_error ::
  "('s \<Rightarrow> 'a \<Rightarrow> 'e option \<times> 's) \<Rightarrow> 's \<Rightarrow> 'a list \<Rightarrow> nat \<times> 'e option \<times> 's \<Rightarrow> bool" where
  "stops_at_first_error walkFn s es r =
    (case r of (n, err, s') \<Rightarrow>
       n \<le> length es \<and>
       (\<forall>i<n. fst (walkFn (walk_state walkFn s es i) (es ! i)) = None) \<and>
       (case err of
          None \<Rightarrow> n = length es \<and> s' = walk_state walkFn s es n
        | Some x \<Rightarrow>
            n < length es \<and> walkFn (walk_state walkFn s es n) (es ! n) = (Some x, s')))"

text \<open>
  Of a stream of decode outcomes: the records decoded before the first error, and
  that error.
\<close>

fun decoded_prefix :: "('v, 'e) decoded list \<Rightarrow> 'v entry list" where
  "decoded_prefix [] = []"
| "decoded_prefix (DecodeError err kb # rest) = []"
| "decoded_prefix (Decoded e # rest) = e # decoded_prefix rest"

fun first_error :: "('v, 'e) decoded list \<Rightarrow> 'e option" where
  "first_error [] = None"
| "first_error (DecodeError err kb # rest) = Some err"
| "first_error (Decoded e # rest) = first_error rest"

text \<open>
  What a store holds, leaving the entries' own key bytes aside: for every key the value
  and the expiration stored under it. And, of a sequence of decoded records, the key
  each one is stored under with its value and expiration: a record that carries no
  key bytes leaves the key of the record before it in the variable (\<open>prev\<close>, empty at
  the start).
\<close>

definition contents :: "(string \<times> 'v entry) list \<Rightarrow> (string \<times> 'v \<times> Time) list" where
  "contents d = map (\<lambda>(key, e). (key, V e, E e)) d"

fun keyed :: "string \<Rightarrow> 'v entry list \<Rightarrow> (string \<times> 'v \<times> Time) list" where
  "keyed prev [] = []"
| "keyed prev (r # rs) =
    (let k = (if K r = [] then prev else K r) in (k, V r, E r) # keyed k rs)"

text \<open>A stable insertion sort by expiration: one function that meets the contract.\<close>

definition stable_sort_Slice :: "(en \<Rightarrow> en \<Rightarrow> bool) \<Rightarrow> en list \<Rightarrow> en list" where
  "stable_sort_Slice lt xs = sort_key snd xs"

section \<open>Example states\<close>

text \<open>
  A store of four entries with an evict fraction of one half, a count limit of three
  and a tracker; and a Trait whose backend is a list of expiration instants.
\<close>

definition example_store :: "nat syncMap" where
  "example_store =
    \<lparr>data = [(''a'', \<lparr>K = ''a'', V = 1, E = 40\<rparr>), (''b'', \<lparr>K = ''b'', V = 2, E = 10\<rparr>),
             (''c'', \<lparr>K = ''c'', V = 3, E = 30\<rparr>), (''d'', \<lparr>K = ''d'', V = 4, E = 20\<rparr>)],
     tr = \<lparr>Config = zero_Config\<lparr>EvictFraction := 1 / 2, CountSoftLimit := 3,
                                 DeleteExpiredAfter := 5\<rparr>,
           Stat = Some []\<rparr>\<rparr>"

definition example_Trait :: "(int list) Trait" where
  "example_Trait =
    \<lparr>DeleteExpired = Some (\<lambda>t xs. filter (\<lambda>e. \<not> e < t) xs),
     TLen = Some (\<lambda>xs. int (length xs)),
     EvictOldest = Some (\<lambda>f xs. (1, tl xs)),
     TConfig = zero_Config\<lparr>CountSoftLimit := 2, DeleteExpiredAfter := 10\<rparr>,
     TStat = Some []\<rparr>"

text \<open>
  A store of ten entries whose evict fraction is the \<^verbatim>\<open>float64\<close> written \<^verbatim>\<open>0.7\<close>, which
  is a little below seven tenths.
\<close>

definition example_store10 :: "nat syncMap" where
  "example_store10 =
    \<lparr>data = [(''k0'', \<lparr>K = ''k0'', V = 0, E = 10\<rparr>), (''k1'', \<lparr>K = ''k1'', V = 1, E = 20\<rparr>),
             (''k2'', \<lparr>K = ''k2'', V = 2, E = 30\<rparr>), (''k3'', \<lparr>K = ''k3'', V = 3, E = 40\<rparr>),
             (''k4'', \<lparr>K = ''k4'', V = 4, E = 50\<rparr>), (''k5'', \<lparr>K = ''k5'', V = 5, E = 60\<rparr>),
             (''k6'', \<lparr>K = ''k6'', V = 6, E = 70\<rparr>), (''k7'', \<lparr>K = ''k7'', V = 7, E = 80\<rparr>),
             (''k8'', \<lparr>K = ''k8'', V = 8, E = 90\<rparr>), (''k9'', \<lparr>K = ''k9'', V = 9, E = 100\<rparr>)],
     tr = \<lparr>Config = zero_Config\<lparr>EvictFraction := float64_round (7 / 10)\<rparr>, Stat = Some []\<rparr>\<rparr>"

text \<open>A callback for \<^verbatim>\<open>Walk\<close> that records the keys it saw and fails on the value 3.\<close>

definition example_walkFn :: "string list \<Rightarrow> nat entry \<Rightarrow> string option \<times> string list" where
  "example_walkFn s e = (if V e = 3 then (Some ''boom'', s) else (None, s @ [K e]))"

section \<open>Properties\<close>

lemma stat_Add_None: "stat_Add None m x = None"
  by (simp add: stat_Add_def)

subsection \<open>Rounding to float64\<close>

lemma float64_round_0 [simp]: "float64_round 0 = 0"
  by (simp add: float64_round_def)

lemma round_half_even_of_int [simp]: "round_half_even (of_int k) = k"
  by (simp add: round_half_even_def)

lemma round_half_even_ge: "\<lfloor>q\<rfloor> \<le> round_half_even q"
  by (simp add: round_half_even_def Let_def)

lemma round_half_even_le: "round_half_even q \<le> \<lceil>q\<rceil>"
proof (cases "q = of_int \<lfloor>q\<rfloor>")
  case True
  then have "round_half_even q = \<lfloor>q\<rfloor>" by (metis round_half_even_of_int)
  then show ?thesis by (simp add: floor_le_ceiling)
next
  case False
  then have "\<lceil>q\<rceil> = \<lfloor>q\<rfloor> + 1" by (metis ceiling_altdef)
  then show ?thesis by (simp add: round_half_even_def Let_def)
qed

lemma two_powr: "(2 :: real) powr real_of_int n = 2 powi n"
  by (rule powr_real_of_int') auto

lemma ulp_exponent_le:
  assumes "x \<noteq> 0" and "\<bar>x\<bar> < 2 powi (53 + e)" and "- 1074 \<le> e"
  shows "float64_ulp_exponent x \<le> e"
proof -
  have pos: "0 < \<bar>x\<bar>" using assms(1) by simp
  have "\<bar>x\<bar> < 2 powr real_of_int (53 + e)"
    using assms(2) by (simp only: two_powr)
  then have "log 2 \<bar>x\<bar> < real_of_int (53 + e)"
    using pos log_less_iff [of 2 "\<bar>x\<bar>" "real_of_int (53 + e)"] by simp
  then have "\<lfloor>log 2 \<bar>x\<bar>\<rfloor> < 53 + e" by (simp add: floor_less_iff)
  then show ?thesis using assms(3) by (simp add: float64_ulp_exponent_def)
qed

lemma power_int_split:
  "lo \<le> e \<Longrightarrow> (2 :: real) powi e = 2 ^ nat (e - lo) * 2 powi lo"
proof -
  assume "lo \<le> e"
  then have "e = int (nat (e - lo)) + lo" by simp
  then have "(2 :: real) powi e = 2 powi (int (nat (e - lo)) + lo)" by simp
  also have "\<dots> = 2 powi int (nat (e - lo)) * 2 powi lo" by (simp add: power_int_add)
  finally show ?thesis by (simp only: power_int_of_nat)
qed

text \<open>A value with a 53-bit significand and an exponent in range is a float64.\<close>

lemma float64_round_exact:
  assumes "\<bar>m\<bar> < 2 ^ 53" and "- 1074 \<le> e"
  shows "float64_round (real_of_int m * 2 powi e) = real_of_int m * 2 powi e"
proof (cases "m = 0")
  case True
  then show ?thesis by simp
next
  case False
  let ?x = "real_of_int m * 2 powi e"
  let ?E = "float64_ulp_exponent ?x"
  have nz: "?x \<noteq> 0" using False by simp
  have "\<bar>?x\<bar> = real_of_int \<bar>m\<bar> * 2 powi e"
    by (simp add: abs_mult)
  also have "\<dots> < 2 ^ 53 * 2 powi e"
  proof -
    have "real_of_int \<bar>m\<bar> < real_of_int (2 ^ 53)" using assms(1) by (simp only: of_int_less_iff)
    then show ?thesis by simp
  qed
  also have "\<dots> = 2 powi (53 + e)"
    by (simp add: power_int_add)
  finally have le: "?E \<le> e" using nz assms(2) by (intro ulp_exponent_le)
  have sp: "(2 :: real) powi e = 2 ^ nat (e - ?E) * 2 powi ?E"
    by (rule power_int_split [OF le])
  have q: "?x / 2 powi ?E = real_of_int (m * 2 ^ nat (e - ?E))"
    by (subst sp) simp
  have r: "round_half_even (?x / 2 powi ?E) = m * 2 ^ nat (e - ?E)"
    by (simp only: q round_half_even_of_int)
  have "float64_round ?x = real_of_int (m * 2 ^ nat (e - ?E)) * 2 powi ?E"
    using nz by (simp only: float64_round_def r if_False)
  also have "\<dots> = ?x" by (subst (2) sp) simp
  finally show ?thesis .
qed

lemma float64_round_of_int: "\<bar>m\<bar> < 2 ^ 53 \<Longrightarrow> float64_round (real_of_int m) = real_of_int m"
  using float64_round_exact [of m 0] by simp

text \<open>Rounding does not cross an integer below \<open>2 ^ 53\<close>.\<close>

lemma float64_round_bounds:
  assumes "0 \<le> x" and "x \<le> real L" and "L < 2 ^ 53"
  shows "0 \<le> float64_round x" and "float64_round x \<le> real L"
proof -
  let ?E = "float64_ulp_exponent x"
  have pw: "0 < (2 :: real) powi ?E" by simp
  have both: "0 \<le> float64_round x \<and> float64_round x \<le> real L"
  proof (cases "x = 0")
    case True
    then show ?thesis by simp
  next
    case False
    then have xp: "0 < x" using assms(1) by simp
    have "x < 2 ^ 53"
    proof -
      have "real L < real (2 ^ 53)" using assms(3) by (simp only: of_nat_less_iff)
      then show ?thesis using assms(2) by simp
    qed
    then have "\<bar>x\<bar> < 2 powi (53 + 0)" using xp by simp
    then have E0: "?E \<le> 0" using False by (intro ulp_exponent_le) auto
    have one: "(1 :: real) = 2 ^ nat (- ?E) * 2 powi ?E"
      using power_int_split [OF E0] by simp
    let ?q = "x / 2 powi ?E"
    let ?M = "int L * 2 ^ nat (- ?E)"
    have qM: "?q \<le> real_of_int ?M"
    proof -
      have "x \<le> real L * (2 ^ nat (- ?E) * 2 powi ?E)" using assms(2) one by simp
      then have "x \<le> (real L * 2 ^ nat (- ?E)) * 2 powi ?E" by (simp add: mult.assoc)
      then have "?q \<le> real L * 2 ^ nat (- ?E)" using pw by (simp add: pos_divide_le_eq)
      then show ?thesis by simp
    qed
    have "round_half_even ?q \<le> \<lceil>?q\<rceil>" by (rule round_half_even_le)
    also have "\<dots> \<le> ?M" using qM by (simp add: ceiling_le_iff)
    finally have "real_of_int (round_half_even ?q) \<le> real_of_int ?M" by (simp only: of_int_le_iff)
    then have "real_of_int (round_half_even ?q) * 2 powi ?E \<le> real_of_int ?M * 2 powi ?E"
      using pw by (simp only: mult_le_cancel_right_pos)
    also have "real_of_int ?M * 2 powi ?E = real L * (2 ^ nat (- ?E) * 2 powi ?E)" by simp
    also have "\<dots> = real L" using one by simp
    finally have up: "float64_round x \<le> real L" using False by (simp add: float64_round_def)
    have "0 \<le> ?q" using xp pw by simp
    then have "0 \<le> \<lfloor>?q\<rfloor>" by simp
    then have "0 \<le> round_half_even ?q" using round_half_even_ge [of ?q] by linarith
    then have "0 \<le> real_of_int (round_half_even ?q) * 2 powi ?E" using pw by simp
    then have lo: "0 \<le> float64_round x" using False by (simp add: float64_round_def)
    show ?thesis using lo up by simp
  qed
  show "0 \<le> float64_round x" using both by simp
  show "float64_round x \<le> real L" using both by simp
qed

text \<open>Evaluating the rounding when the binade is known.\<close>

lemma float64_round_eval:
  assumes "2 powi k \<le> \<bar>x\<bar>" and "\<bar>x\<bar> < 2 powi (k + 1)" and "- 1022 \<le> k"
  shows "float64_round x = real_of_int (round_half_even (x / 2 powi (k - 52))) * 2 powi (k - 52)"
proof -
  have pos: "0 < \<bar>x\<bar>" using assms(1) zero_less_power_int [of "2 :: real" k] by linarith
  have "2 powr real_of_int k \<le> \<bar>x\<bar> \<and> \<bar>x\<bar> < 2 powr real_of_int (k + 1)"
    using assms(1,2) by (simp only: two_powr)
  then have "\<lfloor>log 2 \<bar>x\<bar>\<rfloor> = k"
    using pos floor_log_eq_powr_iff [of "\<bar>x\<bar>" 2 k] by simp
  then have "float64_ulp_exponent x = k - 52"
    using assms(3) by (simp add: float64_ulp_exponent_def)
  then show ?thesis using pos by (simp add: float64_round_def)
qed

lemma float64_round_seven_tenths: "float64_round (7 / 10) = 6305039478318694 / 2 ^ 53"
proof -
  have "float64_round (7 / 10) =
      real_of_int (round_half_even ((7 / 10) / 2 powi (- 1 - 52))) * 2 powi (- 1 - 52)"
    by (rule float64_round_eval) (simp_all add: power_int_minus)
  also have "(7 / 10 :: real) / 2 powi (- 1 - 52) = 63050394783186944 / 10"
    by (simp add: power_int_minus)
  also have "round_half_even (63050394783186944 / 10) = 6305039478318694"
    by (simp add: round_half_even_def Let_def)
  finally show ?thesis by (simp add: power_int_minus)
qed

lemma float64_round_ten_times_seven_tenths: "float64_round (10 * float64_round (7 / 10)) = 7"
proof -
  let ?x = "10 * (6305039478318694 / 2 ^ 53) :: real"
  have "float64_round ?x =
      real_of_int (round_half_even (?x / 2 powi (2 - 52))) * 2 powi (2 - 52)"
    by (rule float64_round_eval) (simp_all add: power_int_minus)
  also have "?x / 2 powi (2 - 52) = 15762598695796735 / 2"
    by (simp add: power_int_minus)
  also have "round_half_even (15762598695796735 / 2) = 7881299347898368"
    by (simp add: round_half_even_def Let_def)
  finally show ?thesis by (simp add: float64_round_seven_tenths power_int_minus)
qed

lemma float64_round_seven_tenths_idem:
  "float64_round (float64_round (7 / 10)) = float64_round (7 / 10)"
  unfolding float64_round_seven_tenths
  using float64_round_exact [of 6305039478318694 "- 53"] by (simp add: power_int_minus)

lemma float64_round_numeral:
  "(numeral n :: int) < 2 ^ 53 \<Longrightarrow> float64_round (numeral n) = numeral n"
  using float64_round_of_int [of "numeral n"] by simp

lemma float64_round_neg_numeral:
  "(numeral n :: int) < 2 ^ 53 \<Longrightarrow> float64_round (- numeral n) = - numeral n"
  using float64_round_of_int [of "- numeral n"] by simp

lemma float64_round_1: "float64_round 1 = 1"
  using float64_round_of_int [of 1] by simp

lemma float64_round_half: "float64_round (1 / 2) = 1 / 2"
  using float64_round_exact [of 1 "- 1"] by (simp add: power_int_minus)

lemma float64_round_quarter: "float64_round (1 / 4) = 1 / 4"
  using float64_round_exact [of 1 "- 2"] by (simp add: power_int_minus)

lemma float64_round_neg_quarter: "float64_round (- (1 / 4)) = - (1 / 4)"
  using float64_round_exact [of "- 1" "- 2"] by (simp add: power_int_minus)

lemma float64_round_three_halves: "float64_round (3 / 2) = 3 / 2"
  using float64_round_exact [of 3 "- 1"] by (simp add: power_int_minus)

lemmas float64_evals =
  float64_round_0 float64_round_numeral float64_round_neg_numeral float64_round_1
  float64_round_half float64_round_quarter float64_round_neg_quarter
  float64_round_three_halves float64_mul_def float64_sub_def float64_of_int_def
  float64_of_Duration_def

text \<open>
  The product is rounded: \<^verbatim>\<open>int(float64(10) * 0.7)\<close> is \<open>7\<close>, although ten times the
  \<^verbatim>\<open>float64\<close> \<^verbatim>\<open>0.7\<close> is below \<open>7\<close>.
\<close>

lemma evictItems_of_ten_seven_tenths:
  "evictItems_of 10 (7 / 10) = 7 \<and> \<lfloor>10 * float64_round (7 / 10)\<rfloor> = 6"
proof -
  have "float64_round 10 = 10" by (simp add: float64_round_numeral)
  then have "evictItems_of 10 (7 / 10) = 7"
    by (simp add: evictItems_of_def float64_mul_def float64_of_int_def int_of_float_def
        float64_round_ten_times_seven_tenths)
  moreover have "\<lfloor>10 * float64_round (7 / 10)\<rfloor> = (6 :: int)"
    by (simp add: float64_round_seven_tenths)
  ultimately show ?thesis by simp
qed

lemma ts_in_range:
  "- 9223372036854775808 \<le> t \<Longrightarrow> t < 9223372036854775808 \<Longrightarrow> ts t = t"
  unfolding ts_def by (simp add: sint_sbintrunc' signed_take_bit_int_eq_self)

subsection \<open>Evaluating the model on constants\<close>

lemmas const_defs =
  DefaultTTL_def UnlimitedTTL_def Hour_def Minute_def zero_Config_def time_Add_def
  Before_def int_of_float_def Duration_of_float_def stat_Add_def float64_evals
  ts_in_range

lemmas op_defs =
  NewTrait_def newTrait_def NewSyncMap_def Trait_TTL_def trait_TTL_def expireAt_def
  PrepareRead_def prepareRead_def Read_def Write_def Delete_def NotifyWritten_def
  NotifyDeleted_def

subsection \<open>Read preparation\<close>

text \<open>
  C2. Read preparation has three outcomes. A lookup that found nothing returns
  \<open>ErrNotFound\<close>. A lookup that found an entry returns \<open>ErrExpired\<close> carrying the entry
  when its expiration lies strictly before now, and the stored value otherwise. For
  \<^verbatim>\<open>Trait.PrepareRead\<close> the expiration is an \<^verbatim>\<open>int64\<close> in which \<open>0\<close> is the absent
  expiration ("never"), so an expiration before now is a non-zero one below now; for
  \<^verbatim>\<open>trait.prepareRead\<close> it is \<^verbatim>\<open>E.Before(now)\<close>. (A call with \<open>found\<close> set and a
  \<^verbatim>\<open>nil\<close> entry is not a lookup result; it panics.)
\<close>

theorem C2_read_classification:
  "fst (PrepareRead c cacheEntry False now) = Inl ErrNotFound \<and>
   fst (PrepareRead c (Some e) True now) =
     (if TE e \<noteq> 0 \<and> TE e < now then Inl (ErrExpired e) else Inr (TV e)) \<and>
   fst (prepareRead d cacheEntry' False now') = Inl ErrNotFound \<and>
   fst (prepareRead d (Some e') True now') =
     (if Before (E e') now' then Inl (ErrExpired e') else Inr (V e'))"
  by (simp add: PrepareRead_def prepareRead_def)

subsection \<open>Delete\<close>

text \<open>
  C3. The \<^verbatim>\<open>Deleter\<close> interface documents that \<^verbatim>\<open>Delete\<close> returns \<open>ErrNotFound\<close> for a key
  that has no entry. \<^verbatim>\<open>syncMap.Delete\<close> returns \<^verbatim>\<open>nil\<close> whatever the store holds: on the
  empty cache, deleting the key \<open>''a''\<close> (which has no entry) returns no error.
\<close>

theorem C3_Delete_absent_key_returns_nil:
  "map_of (data (NewSyncMap [] :: nat syncMap)) ''a'' = None \<and>
   fst (Delete (NewSyncMap [] :: nat syncMap) \<lparr>TTL = 0, SkipRead = False\<rparr> ''a'') = None"
  by (simp add: NewSyncMap_def Delete_def)

lemma Delete_returns_nil: "fst (Delete c ctx key) = None"
  by (simp add: Delete_def)

lemma Delete_removes: "map_of (data (snd (Delete c ctx key))) = (map_of (data c))(key := None)"
  by (rule ext) (simp add: Delete_def AList.delete_conv)

subsection \<open>Unlimited TTL\<close>

text \<open>
  C4 (as amended). For a write whose expiration is computed by \<^verbatim>\<open>Trait.expireAt\<close>: when
  the effective TTL of the write (\<^verbatim>\<open>Trait.TTL\<close>) is \<open>0\<close>, \<^verbatim>\<open>expireAt\<close> yields the
  expiration \<open>0\<close>, the "never" sentinel, and \<^verbatim>\<open>PrepareRead\<close> of an entry stored with that
  expiration returns its value at every instant, never \<open>ErrExpired\<close>.
\<close>

theorem C4_zero_ttl_stores_sentinel:
  assumes "Trait_TTL c ctx rnd = 0"
  shows "expireAt c ctx rnd now = (0, 0) \<and>
         fst (PrepareRead c' (Some \<lparr>TK = k, TV = v, TE = snd (expireAt c ctx rnd now)\<rparr>)
                True now') = Inr v"
  using assms by (simp add: expireAt_def PrepareRead_def)

theorem C4_zero_ttl_stores_sentinel_witness:
  "Trait_TTL (fst (NewTrait (zero_Config\<lparr>TimeToLive := UnlimitedTTL\<rparr>) []) :: unit Trait)
      \<lparr>TTL = 0, SkipRead = False\<rparr> (1 / 4) = 0 \<and>
   expireAt (fst (NewTrait (zero_Config\<lparr>TimeToLive := UnlimitedTTL\<rparr>) []) :: unit Trait)
      \<lparr>TTL = 0, SkipRead = False\<rparr> (1 / 4) 1000 = (0, 0) \<and>
   fst (PrepareRead (fst (NewTrait zero_Config []) :: unit Trait)
          (Some \<lparr>TK = ''k'', TV = (7 :: nat),
                 TE = snd (expireAt
                   (fst (NewTrait (zero_Config\<lparr>TimeToLive := UnlimitedTTL\<rparr>) []) :: unit Trait)
                   \<lparr>TTL = 0, SkipRead = False\<rparr> (1 / 4) 1000)\<rparr>)
          True 99999) = Inr 7"
proof -
  have h: "Trait_TTL (fst (NewTrait (zero_Config\<lparr>TimeToLive := UnlimitedTTL\<rparr>) []) :: unit Trait)
      \<lparr>TTL = 0, SkipRead = False\<rparr> (1 / 4) = 0"
    by (simp add: NewTrait_def Trait_TTL_def const_defs)
  show ?thesis
    by (rule conjI [OF h C4_zero_ttl_stores_sentinel [OF h]])
qed

text \<open>
  C4 as stated fails on \<^verbatim>\<open>syncMap.Write\<close>, which has no sentinel: it stores \<open>now + ttl\<close>
  whatever the TTL is. With an expiration jitter of \<open>4\<close> and the draw \<open>1 / 4\<close>, the default
  TTL of 5 minutes becomes the effective TTL \<open>0\<close>; the entry expires at the instant of
  the write, and a \<^verbatim>\<open>Read\<close> one nanosecond later returns \<open>ErrExpired\<close>.
\<close>

theorem C4_syncMap_Write_zero_ttl_expires:
  "trait_TTL (tr (NewSyncMap [\<lambda>cfg. cfg\<lparr>ExpirationJitter := 4\<rparr>] :: string syncMap))
      \<lparr>TTL = DefaultTTL, SkipRead = False\<rparr> (1 / 4) = 0 \<and>
   data (snd (Write (NewSyncMap [\<lambda>cfg. cfg\<lparr>ExpirationJitter := 4\<rparr>])
                \<lparr>TTL = DefaultTTL, SkipRead = False\<rparr> ''k'' ''v'' (1 / 4) 1000))
     = [(''k'', \<lparr>K = ''k'', V = ''v'', E = 1000\<rparr>)] \<and>
   fst (Read (snd (Write (NewSyncMap [\<lambda>cfg. cfg\<lparr>ExpirationJitter := 4\<rparr>])
                     \<lparr>TTL = DefaultTTL, SkipRead = False\<rparr> ''k'' ''v'' (1 / 4) 1000))
          \<lparr>TTL = DefaultTTL, SkipRead = False\<rparr> ''k'' 1001)
     = Inl (ErrExpired \<lparr>K = ''k'', V = ''v'', E = 1000\<rparr>)"
  by (simp add: op_defs const_defs)

text \<open>
  C1 (as amended). A write whose TTL comes from \<^verbatim>\<open>Trait.TTL\<close> with the configured
  \<open>TimeToLive\<close> equal to \<open>UnlimitedTTL\<close> and no per-call override gets the expiration \<open>0\<close>,
  and \<^verbatim>\<open>PrepareRead\<close> of the entry returns its value at every instant.
\<close>

theorem C1_config_unlimited_never_expires:
  assumes "TimeToLive (TConfig c) = UnlimitedTTL" and "TTL ctx = DefaultTTL"
  shows "expireAt c ctx rnd now = (0, 0) \<and>
         fst (PrepareRead c' (Some \<lparr>TK = k, TV = v, TE = snd (expireAt c ctx rnd now)\<rparr>)
                True now') = Inr v"
  using assms by (simp add: expireAt_def Trait_TTL_def PrepareRead_def)

theorem C1_config_unlimited_never_expires_witness:
  "expireAt (fst (NewTrait (zero_Config\<lparr>TimeToLive := UnlimitedTTL\<rparr>) []) :: unit Trait)
      \<lparr>TTL = DefaultTTL, SkipRead = False\<rparr> (3 / 4) 1000 = (0, 0) \<and>
   fst (PrepareRead (fst (NewTrait (zero_Config\<lparr>TimeToLive := UnlimitedTTL\<rparr>) []) :: unit Trait)
          (Some \<lparr>TK = ''k'', TV = ''v'',
                 TE = snd (expireAt
                   (fst (NewTrait (zero_Config\<lparr>TimeToLive := UnlimitedTTL\<rparr>) []) :: unit Trait)
                   \<lparr>TTL = DefaultTTL, SkipRead = False\<rparr> (3 / 4) 1000)\<rparr>)
          True 1000000000000000000000) = Inr ''v''"
proof -
  have h1: "TimeToLive (TConfig (fst (NewTrait (zero_Config\<lparr>TimeToLive := UnlimitedTTL\<rparr>) [])
              :: unit Trait)) = UnlimitedTTL"
    by (simp add: NewTrait_def const_defs)
  have h2: "TTL \<lparr>TTL = DefaultTTL, SkipRead = False\<rparr> = DefaultTTL"
    by simp
  show ?thesis
    by (rule C1_config_unlimited_never_expires [OF h1 h2])
qed

text \<open>
  C1 as stated fails for a per-call override of \<open>UnlimitedTTL\<close>. With the default
  configuration, a write at instant \<open>1000\<close> with the override \<open>- 1\<close> gets the expiration
  \<open>999\<close>, and a read at that same instant (or any later one) is \<open>ErrExpired\<close>: through
  \<^verbatim>\<open>Trait.expireAt\<close> and \<^verbatim>\<open>Trait.PrepareRead\<close>, and through \<^verbatim>\<open>syncMap.Write\<close> and
  \<^verbatim>\<open>syncMap.Read\<close> alike.
\<close>

theorem C1_override_unlimited_expires:
  "expireAt (fst (NewTrait zero_Config []) :: unit Trait)
      \<lparr>TTL = UnlimitedTTL, SkipRead = False\<rparr> (1 / 2) 1000 = (- 1, 999) \<and>
   fst (PrepareRead (fst (NewTrait zero_Config []) :: unit Trait)
          (Some \<lparr>TK = ''k'', TV = ''v'', TE = 999\<rparr>) True 1000)
     = Inl (ErrExpired \<lparr>TK = ''k'', TV = ''v'', TE = 999\<rparr>) \<and>
   fst (Read (snd (Write (NewSyncMap []) \<lparr>TTL = UnlimitedTTL, SkipRead = False\<rparr>
                     ''k'' ''v'' (1 / 2) 1000))
          \<lparr>TTL = 0, SkipRead = False\<rparr> ''k'' 1000)
     = Inl (ErrExpired \<lparr>K = ''k'', V = ''v'', E = 999\<rparr>)"
  by (simp add: op_defs const_defs)

text \<open>
  The older \<^verbatim>\<open>trait.TTL\<close> does not single out a configured \<open>UnlimitedTTL\<close> either: a
  cache built with \<open>TimeToLive = - 1\<close> stores the expiration \<open>now - 1\<close>.
\<close>

lemma syncMap_config_unlimited_expires:
  "fst (Read (snd (Write (NewSyncMap [\<lambda>cfg. cfg\<lparr>TimeToLive := UnlimitedTTL\<rparr>])
                     \<lparr>TTL = DefaultTTL, SkipRead = False\<rparr> ''k'' ''v'' (1 / 2) 1000))
          \<lparr>TTL = 0, SkipRead = False\<rparr> ''k'' 1000)
     = Inl (ErrExpired \<lparr>K = ''k'', V = ''v'', E = 999\<rparr>)"
  by (simp add: op_defs const_defs)

subsection \<open>Constructor defaults\<close>

text \<open>
  C10 (as amended). Both constructors replace a zero \<open>DeleteExpiredAfter\<close>,
  \<open>DeleteExpiredJobInterval\<close>, \<open>ItemsCountReportInterval\<close>, \<open>ExpirationJitter\<close> and
  \<open>TimeToLive\<close> by 24 hours, 1 hour, 1 minute, 0.1 and 5 minutes, and leave every other
  field and every non-zero value as configured. So the jitter of the constructed
  configuration is never zero, and it is positive exactly when the configured jitter
  is not negative.
\<close>

theorem C10_constructor_defaults:
  "Config (fst (newTrait cfg)) =
     cfg\<lparr>DeleteExpiredAfter :=
           (if DeleteExpiredAfter cfg = 0 then 24 * Hour else DeleteExpiredAfter cfg),
         DeleteExpiredJobInterval :=
           (if DeleteExpiredJobInterval cfg = 0 then Hour else DeleteExpiredJobInterval cfg),
         ItemsCountReportInterval :=
           (if ItemsCountReportInterval cfg = 0 then Minute else ItemsCountReportInterval cfg),
         ExpirationJitter :=
           (if ExpirationJitter cfg = 0 then 1 / 10 else ExpirationJitter cfg),
         TimeToLive := (if TimeToLive cfg = 0 then 5 * Minute else TimeToLive cfg)\<rparr> \<and>
   TConfig (fst (NewTrait cfg [])) = Config (fst (newTrait cfg)) \<and>
   ExpirationJitter (Config (fst (newTrait cfg))) \<noteq> 0 \<and>
   (0 < ExpirationJitter (Config (fst (newTrait cfg)))) = (0 \<le> ExpirationJitter cfg)"
  by (auto simp add: newTrait_def NewTrait_def Let_def)

theorem C10_constructor_defaults_witness:
  "Config (fst (newTrait zero_Config)) =
     zero_Config\<lparr>DeleteExpiredAfter := 24 * Hour, DeleteExpiredJobInterval := Hour,
                 ItemsCountReportInterval := Minute, ExpirationJitter := 1 / 10,
                 TimeToLive := 5 * Minute\<rparr> \<and>
   TConfig (fst (NewTrait zero_Config [])) = Config (fst (newTrait zero_Config)) \<and>
   0 < ExpirationJitter (Config (fst (newTrait zero_Config)))"
  using C10_constructor_defaults [of zero_Config] by (auto simp add: zero_Config_def)

text \<open>
  C10 as stated fails: a negative jitter is not zero, so the constructor keeps it, and
  the constructed cache has no positive jitter (\<^verbatim>\<open>TTL\<close> then applies none). A zero
  \<open>EvictFraction\<close> is not replaced by the constructor either.
\<close>

theorem C10_negative_jitter_kept:
  "ExpirationJitter (Config (fst (newTrait (zero_Config\<lparr>ExpirationJitter := - 1\<rparr>)))) = - 1 \<and>
   \<not> 0 < ExpirationJitter (Config (fst (newTrait (zero_Config\<lparr>ExpirationJitter := - 1\<rparr>)))) \<and>
   \<not> 0 < ExpirationJitter (TConfig (fst (NewTrait (zero_Config\<lparr>ExpirationJitter := - 1\<rparr>) []))) \<and>
   EvictFraction (Config (fst (newTrait zero_Config))) = 0"
  by (simp add: newTrait_def NewTrait_def zero_Config_def)

subsection \<open>Walk and Dump\<close>

lemma walk_state_0: "walk_state f s es 0 = s" by (simp add: walk_state_def)
lemma walk_state_Suc: "walk_state f s (e # es) (Suc i) = walk_state f (snd (f s e)) es i"
  by (simp add: walk_state_def)

lemma Range_Walk_char:
  "\<exists>j err s'. Range_Walk walkFn xs n s = (n + j, err, s') \<and>
     stops_at_first_error walkFn s (map snd xs) (j, err, s')"
proof (induction xs arbitrary: n s)
  case Nil
  then show ?case by (simp add: stops_at_first_error_def walk_state_def)
next
  case (Cons p xs)
  obtain key v where p: "p = (key, v)" by (cases p)
  obtain r s1 where f: "walkFn s v = (r, s1)" by (cases "walkFn s v")
  show ?case
  proof (cases r)
    case None
    from Cons.IH [of "n + 1" s1] obtain j err s' where
      a: "Range_Walk walkFn xs (n + 1) s1 = (n + 1 + j, err, s')" and
      b: "stops_at_first_error walkFn s1 (map snd xs) (j, err, s')" by blast
    have "Range_Walk walkFn (p # xs) n s = (n + Suc j, err, s')"
      using a p f None by simp
    moreover have "stops_at_first_error walkFn s (map snd (p # xs)) (Suc j, err, s')"
      using b p f None
      by (auto simp add: stops_at_first_error_def walk_state_Suc walk_state_0 less_Suc_eq_0_disj
          split: option.splits)
    ultimately show ?thesis by blast
  next
    case (Some x)
    have "Range_Walk walkFn (p # xs) n s = (n + 0, Some x, s1)"
      using p f Some by simp
    moreover have "stops_at_first_error walkFn s (map snd (p # xs)) (0, Some x, s1)"
      using p f Some by (simp add: stops_at_first_error_def walk_state_0)
    ultimately show ?thesis by blast
  qed
qed

text \<open>
  C7. \<^verbatim>\<open>Walk\<close> calls the callback on the entries in turn and stops at the first
  error: the count it returns is the number of calls that returned no error, the
  failing entry is not counted, and no call is made after the failing one. With no
  error every entry is visited. \<^verbatim>\<open>Dump\<close> is \<^verbatim>\<open>Walk\<close> with the encoder as callback, so it
  stops at the first encode or sink error and returns the number of entries written
  before it.
\<close>

theorem C7_Walk_stops_at_first_error:
  "stops_at_first_error walkFn s (map snd (data c)) (Walk c walkFn s) \<and>
   stops_at_first_error Encode w (map snd (data c)) (Dump c Encode w)"
proof -
  have a: "stops_at_first_error walkFn s (map snd (data c)) (Walk c walkFn s)"
    using Range_Walk_char [of walkFn "data c" 0 s] by (auto simp add: Walk_def)
  have b: "stops_at_first_error Encode w (map snd (data c)) (Dump c Encode w)"
    using Range_Walk_char [of Encode "data c" 0 w] by (auto simp add: Walk_def Dump_def)
  show ?thesis using a b by simp
qed

theorem C7_Walk_stops_at_first_error_witness:
  "Walk example_store example_walkFn [] = (2, Some ''boom'', [''a'', ''b'']) \<and>
   Dump example_store example_walkFn [] = (2, Some ''boom'', [''a'', ''b'']) \<and>
   stops_at_first_error example_walkFn [] (map snd (data example_store))
     (2, Some ''boom'', [''a'', ''b''])"
proof -
  have w: "Walk example_store example_walkFn [] = (2, Some ''boom'', [''a'', ''b''])"
    by (simp add: Walk_def example_store_def example_walkFn_def)
  have d: "Dump example_store example_walkFn [] = (2, Some ''boom'', [''a'', ''b''])"
    using w by (simp add: Dump_def)
  show ?thesis
    using C7_Walk_stops_at_first_error [of example_walkFn "[]" example_store example_walkFn "[]"]
      w d by simp
qed

subsection \<open>ExpireAll\<close>

lemma map_of_ExpireAll:
  "map_of (data (ExpireAll c ctx now)) key = map_option (\<lambda>e. e\<lparr>E := now\<rparr>) (map_of (data c) key)"
proof -
  have "map_of (map (\<lambda>(key, cacheEntry). (key, cacheEntry\<lparr>E := now\<rparr>)) xs) key
        = map_option (\<lambda>e. e\<lparr>E := now\<rparr>) (map_of xs key)" for xs :: "(string \<times> 'a entry) list"
    by (induction xs) auto
  then show ?thesis by (simp add: ExpireAll_def)
qed

text \<open>
  C8 (as amended). \<^verbatim>\<open>ExpireAll\<close> sets the expiration of every entry to the instant of
  the call and removes nothing: \<^verbatim>\<open>Len\<close> is unchanged, keys and values are unchanged,
  and a \<^verbatim>\<open>Read\<close> that the context does not skip, at a clock reading strictly later
  than that instant, of a key that had an entry returns \<open>ErrExpired\<close> carrying that
  entry, with its value, expired at the instant of the call.
\<close>

theorem C8_ExpireAll_keeps_entries:
  assumes "map_of (data c) key = Some e" and "now < now'" and "\<not> SkipRead ctx'"
  shows "Len (ExpireAll c ctx now) = Len c \<and>
     map (\<lambda>(k, e). (k, K e, V e)) (data (ExpireAll c ctx now)) = map (\<lambda>(k, e). (k, K e, V e)) (data c) \<and>
     list_all (\<lambda>(k, e). E e = now) (data (ExpireAll c ctx now)) \<and>
     fst (Read (ExpireAll c ctx now) ctx' key now') = Inl (ErrExpired (e\<lparr>E := now\<rparr>)) \<and>
     V (e\<lparr>E := now\<rparr>) = V e"
proof -
  have m: "map_of (map (\<lambda>(key, cacheEntry). (key, cacheEntry\<lparr>E := now\<rparr>)) xs) key
        = map_option (\<lambda>e. e\<lparr>E := now\<rparr>) (map_of xs key)" for xs :: "(string \<times> 'a entry) list"
    by (induction xs) auto
  show ?thesis using assms
    by (auto simp add: Len_def ExpireAll_def Read_def prepareRead_def Before_def m list_all_iff split: prod.splits)
qed

theorem C8_ExpireAll_keeps_entries_witness:
  "Len (ExpireAll example_store \<lparr>TTL = 0, SkipRead = False\<rparr> 50) = 4 \<and>
   fst (Read (ExpireAll example_store \<lparr>TTL = 0, SkipRead = False\<rparr> 50)
          \<lparr>TTL = 0, SkipRead = False\<rparr> ''a'' 51) =
     Inl (ErrExpired \<lparr>K = ''a'', V = 1, E = 50\<rparr>)"
proof -
  have h1: "map_of (data example_store) ''a'' = Some \<lparr>K = ''a'', V = 1, E = 40\<rparr>"
    by (simp add: example_store_def)
  have h2: "(50 :: Time) < 51" by simp
  have h3: "\<not> SkipRead \<lparr>TTL = 0, SkipRead = False\<rparr>" by simp
  have l: "Len example_store = 4" by (simp add: Len_def example_store_def)
  show ?thesis
    using C8_ExpireAll_keeps_entries [OF h1 h2 h3, of "\<lparr>TTL = 0, SkipRead = False\<rparr>"] l
    by simp
qed

text \<open>
  C8 as stated fails: the comparison is strict, so a \<^verbatim>\<open>Read\<close> at the very clock reading
  \<^verbatim>\<open>ExpireAll\<close> took still returns the value; and a \<^verbatim>\<open>Read\<close> whose context asks to
  skip reading returns \<open>ErrNotFound\<close>, whatever the store holds.
\<close>

theorem C8_read_after_ExpireAll_not_expired:
  "fst (Read (ExpireAll example_store \<lparr>TTL = 0, SkipRead = False\<rparr> 50)
          \<lparr>TTL = 0, SkipRead = False\<rparr> ''a'' 50) = Inr 1 \<and>
   fst (Read (ExpireAll example_store \<lparr>TTL = 0, SkipRead = False\<rparr> 50)
          \<lparr>TTL = 0, SkipRead = True\<rparr> ''a'' 51) = Inl ErrNotFound"
  by (simp add: ExpireAll_def Read_def prepareRead_def Before_def example_store_def)

text \<open>Both hold of every store, not only of the example.\<close>

lemma ExpireAll_read_same_instant:
  assumes "map_of (data c) key = Some e" and "\<not> SkipRead ctx'"
  shows "fst (Read (ExpireAll c ctx now) ctx' key now) = Inr (V e)"
  using assms
  by (simp add: Read_def prepareRead_def Before_def map_of_ExpireAll split: prod.splits)

lemma ExpireAll_read_skipped:
  assumes "SkipRead ctx'"
  shows "fst (Read (ExpireAll c ctx now) ctx' key now') = Inl ErrNotFound"
  using assms by (simp add: Read_def)

subsection \<open>Restore\<close>

text \<open>
  C6. A stream of two records with the keys \<open>a\<close> and \<open>b\<close>, restored into an empty cache:
  both records are stored, each under its key, but the second key is decoded into the
  bytes the first entry still shares, so the entry stored under \<open>a\<close> ends up with the
  key bytes \<open>b\<close>. The statement \<^verbatim>\<open>e := e\<close> copies the struct in order to store a separate
  entry per record; it does not copy the bytes of \<open>K\<close>.
\<close>

theorem C6_Restore_overwrites_stored_key_bytes:
  "Restore (NewSyncMap [] :: nat syncMap)
     [Decoded \<lparr>K = ''a'', V = 1, E = 10\<rparr>, Decoded \<lparr>K = ''b'', V = 2, E = 20\<rparr>] =
     (2, None,
      (NewSyncMap [])\<lparr>data := [(''a'', \<lparr>K = ''b'', V = 1, E = 10\<rparr>),
                               (''b'', \<lparr>K = ''b'', V = 2, E = 20\<rparr>)]\<rparr>)"
  by (simp add: Restore_def decode_K_def NewSyncMap_def Let_def)

text \<open>
  A key of the same length, and a key that a failing \<^verbatim>\<open>Decode\<close> had already read,
  overwrite the stored bytes alike.
\<close>

lemma Restore_decode_error_overwrites_key_bytes:
  "Restore (NewSyncMap [] :: nat syncMap)
     [Decoded \<lparr>K = ''a'', V = 1, E = 10\<rparr>, Decoded \<lparr>K = ''b'', V = 2, E = 20\<rparr>,
      Decoded \<lparr>K = ''a'', V = 3, E = 30\<rparr>, DecodeError ''bad record'' ''c'',
      Decoded \<lparr>K = ''d'', V = 4, E = 40\<rparr>] =
     (3, Some ''bad record'',
      (NewSyncMap [])\<lparr>data := [(''a'', \<lparr>K = ''c'', V = 3, E = 30\<rparr>),
                               (''b'', \<lparr>K = ''c'', V = 2, E = 20\<rparr>)]\<rparr>)"
  by (simp add: Restore_def decode_K_def NewSyncMap_def Let_def)

text \<open>
  The rest of what \<^verbatim>\<open>Restore\<close> does is as described: it returns the number of records
  decoded before the first error, and that error if there is one; and, the entries'
  own key bytes aside, the store is the old one updated with the decoded records in
  order, each under its key, so that the last record of a key wins and the records
  stored before an error stay.
\<close>

lemma Restore_loop_count_error:
  "fst (Restore_loop r c n var) = n + length (decoded_prefix r) \<and>
   fst (snd (Restore_loop r c n var)) = first_error r"
  by (induction r c n var rule: Restore_loop.induct) (auto simp add: Let_def split: prod.splits)

lemma Restore_count_error:
  "fst (Restore c r) = length (decoded_prefix r) \<and> fst (snd (Restore c r)) = first_error r"
  by (simp add: Restore_def Restore_loop_count_error)

lemma contents_decode_K: "contents (snd (decode_K kb var d)) = contents d"
  by (simp add: decode_K_def contents_def Let_def case_prod_unfold comp_def)

lemma key_decode_K:
  "take (klen (fst (decode_K kb var d))) (buf (fst (decode_K kb var d))) =
     (if kb = [] then take (klen var) (buf var) else kb)"
  by (simp add: decode_K_def Let_def)

lemma contents_update:
  "contents (AList.update key e d) = AList.update key (V e, E e) (contents d)"
  by (induction d) (auto simp add: contents_def)

lemma contents_Restore_loop:
  "contents (data (snd (snd (Restore_loop r c n var)))) =
     foldl (\<lambda>d (k, v, e). AList.update k (v, e) d) (contents (data c))
       (keyed (take (klen var) (buf var)) (decoded_prefix r))"
proof (induction r c n var rule: Restore_loop.induct)
  case (1 c n var)
  then show ?case by simp
next
  case (2 err kb rest c n var)
  then show ?case by (simp add: contents_decode_K)
next
  case (3 r rest c n var)
  obtain var' d where dk: "decode_K (K r) var (data c) = (var', d)" by (cases "decode_K (K r) var (data c)")
  have cd: "contents d = contents (data c)" using contents_decode_K [of "K r" var "data c"] dk by simp
  have key: "take (klen var') (buf var') = (if K r = [] then take (klen var) (buf var) else K r)"
    using key_decode_K [of "K r" var "data c"] dk by simp
  show ?case
    using 3 [OF dk [symmetric] refl refl] dk
    by (simp add: Let_def contents_update cd key)
qed

lemma Restore_contents:
  "contents (data (snd (snd (Restore c r)))) =
     foldl (\<lambda>d (k, v, e). AList.update k (v, e) d) (contents (data c))
       (keyed [] (decoded_prefix r))"
  by (simp add: Restore_def contents_Restore_loop)

subsection \<open>The janitor\<close>

lemma sint_uminus_Duration:
  fixes d :: Duration
  assumes "sint d \<noteq> - 9223372036854775808"
  shows "sint (- d) = - sint d"
proof -
  have lo: "- (2 ^ 63) \<le> sint d" using sint_ge [of d] by simp
  have hi: "sint d < 2 ^ 63" using sint_lt [of d] by simp
  have "signed_take_bit 63 (- sint d) = - sint d"
    using lo hi assms by (intro signed_take_bit_int_eq_self) auto
  then show ?thesis by (simp add: sint_word_minus)
qed

lemma janitor_cutoff:
  "sint (d :: Duration) \<noteq> - 9223372036854775808 \<Longrightarrow> time_Add now (- d) = now - sint d"
  by (simp add: time_Add_def sint_uminus_Duration)

lemma sint_uint64_below:
  fixes w :: "64 word"
  assumes "uint w < 9223372036854775808"
  shows "sint w = uint w"
proof -
  have "0 \<le> uint w" by (rule uint_ge_0)
  then have "- 9223372036854775808 \<le> uint w" by linarith
  then have "signed_take_bit 63 (uint w) = uint w"
    using assms by (intro signed_take_bit_int_eq_self) auto
  then show ?thesis by (simp add: sint_uint)
qed

lemma uint64_positive: "(0 < uint w) = (w \<noteq> 0)" for w :: "64 word"
  using uint_0_iff [of w] uint_ge_0 [of w] by linarith

lemma heapInUseOverflow_iff:
  "Trait_heapInUseOverflow c heapInuse =
     (0 < uint (HeapInUseSoftLimit (TConfig c)) \<and>
      uint (HeapInUseSoftLimit (TConfig c)) \<le> uint heapInuse)"
  by (simp add: Trait_heapInUseOverflow_def uint64_positive word_le_def)

lemma countOverflow_iff:
  assumes "TLen c = Some len" and "uint (CountSoftLimit (TConfig c)) < 9223372036854775808"
  shows "Trait_countOverflow c x =
     (0 < uint (CountSoftLimit (TConfig c)) \<and> uint (CountSoftLimit (TConfig c)) \<le> len x)"
  using assms by (simp add: Trait_countOverflow_def uint64_positive sint_uint64_below)

lemma syncMap_heapInUseOverflow_iff:
  "syncMap_heapInUseOverflow b heapInuse =
     (0 < uint (HeapInUseSoftLimit (Config (tr b))) \<and>
      uint (HeapInUseSoftLimit (Config (tr b))) \<le> uint heapInuse)"
  by (simp add: syncMap_heapInUseOverflow_def uint64_positive word_le_def)

lemma syncMap_countOverflow_iff:
  assumes "uint (CountSoftLimit (Config (tr b))) < 9223372036854775808"
  shows "syncMap_countOverflow b =
     (0 < uint (CountSoftLimit (Config (tr b))) \<and>
      uint (CountSoftLimit (Config (tr b))) \<le> int (Len b))"
  using assms by (simp add: syncMap_countOverflow_def uint64_positive sint_uint64_below)

text \<open>
  C9 (as amended). With a \<open>DeleteExpiredAfter\<close> other than the least \<^verbatim>\<open>int64\<close> and a
  count limit below \<open>2\<^sup>6\<^sup>3\<close>, a tick of the janitor first calls the deletion of expired
  entries with the cutoff now minus \<open>DeleteExpiredAfter\<close>, and then invokes eviction if
  and only if the heap limit is positive and the heap in use is at or above it, or the
  count limit is positive and the length after the deletion is at or above it; a limit
  of \<open>0\<close> never triggers. This is stated for \<^verbatim>\<open>Trait.janitor\<close> with a backend that
  supplies the three callbacks (the result lists the calls made, and the published
  eviction count is the one \<^verbatim>\<open>EvictOldest\<close> returned), and for \<^verbatim>\<open>trait.janitor\<close> with
  \<^verbatim>\<open>syncMap.deleteExpiredBefore\<close>, whose eviction is \<^verbatim>\<open>evictOldest\<close>.
\<close>

theorem C9_janitor_tick:
  assumes "DeleteExpired c = Some del" and "EvictOldest c = Some evict" and "TLen c = Some len"
    and "sint (DeleteExpiredAfter (TConfig c)) \<noteq> - 9223372036854775808"
    and "uint (CountSoftLimit (TConfig c)) < 9223372036854775808"
    and "sint (DeleteExpiredAfter (Config (tr b))) \<noteq> - 9223372036854775808"
    and "uint (CountSoftLimit (Config (tr b))) < 9223372036854775808"
  shows
    "Trait_janitor_tick c now heapInuse s =
       (let cutoff = now - sint (DeleteExpiredAfter (TConfig c));
            s1 = del cutoff s;
            frac = (if EvictFraction (TConfig c) = 0 then 1 / 10 else EvictFraction (TConfig c))
        in if (0 < uint (HeapInUseSoftLimit (TConfig c)) \<and>
               uint (HeapInUseSoftLimit (TConfig c)) \<le> uint heapInuse) \<or>
              (0 < uint (CountSoftLimit (TConfig c)) \<and>
               uint (CountSoftLimit (TConfig c)) \<le> len s1)
           then (snd (evict frac s1),
                 stat_Add (TStat c) MetricEvict (float64_of_int (fst (evict frac s1))),
                 [DeleteExpiredCall cutoff, EvictOldestCall frac])
           else (s1, TStat c, [DeleteExpiredCall cutoff])) \<and>
     janitor_tick sort_Slice (tr b) b now' heapInuse' =
       (let cutoff = now' - sint (DeleteExpiredAfter (Config (tr b)));
            b1 = b\<lparr>data := Range_deleteExpired (data b) cutoff\<rparr>
        in if (0 < uint (HeapInUseSoftLimit (Config (tr b))) \<and>
               uint (HeapInUseSoftLimit (Config (tr b))) \<le> uint heapInuse') \<or>
              (0 < uint (CountSoftLimit (Config (tr b))) \<and>
               uint (CountSoftLimit (Config (tr b))) \<le> int (Len b1))
           then evictOldest sort_Slice b1 else Inr b1)"
proof -
  have cut: "time_Add now (- DeleteExpiredAfter (TConfig c)) = now - sint (DeleteExpiredAfter (TConfig c))"
    using assms(4) by (rule janitor_cutoff)
  have cut': "time_Add now' (- DeleteExpiredAfter (Config (tr b))) =
      now' - sint (DeleteExpiredAfter (Config (tr b)))"
    using assms(6) by (rule janitor_cutoff)
  have k: "Trait_countOverflow c x =
     (0 < uint (CountSoftLimit (TConfig c)) \<and> uint (CountSoftLimit (TConfig c)) \<le> len x)" for x
    using assms(3,5) by (rule countOverflow_iff)
  have k': "syncMap_countOverflow x =
     (0 < uint (CountSoftLimit (Config (tr b))) \<and>
      uint (CountSoftLimit (Config (tr b))) \<le> int (Len x))" if "tr x = tr b" for x :: "'c syncMap"
    using syncMap_countOverflow_iff [of x] assms(7) that by simp
  have t: "Trait_janitor_tick c now heapInuse s =
       (let cutoff = now - sint (DeleteExpiredAfter (TConfig c));
            s1 = del cutoff s;
            frac = (if EvictFraction (TConfig c) = 0 then 1 / 10 else EvictFraction (TConfig c))
        in if (0 < uint (HeapInUseSoftLimit (TConfig c)) \<and>
               uint (HeapInUseSoftLimit (TConfig c)) \<le> uint heapInuse) \<or>
              (0 < uint (CountSoftLimit (TConfig c)) \<and>
               uint (CountSoftLimit (TConfig c)) \<le> len s1)
           then (snd (evict frac s1),
                 stat_Add (TStat c) MetricEvict (float64_of_int (fst (evict frac s1))),
                 [DeleteExpiredCall cutoff, EvictOldestCall frac])
           else (s1, TStat c, [DeleteExpiredCall cutoff]))"
    unfolding Trait_janitor_tick_def heapInUseOverflow_iff k cut Let_def
    using assms(1,2) by (simp add: case_prod_unfold)
  have j: "janitor_tick sort_Slice (tr b) b now' heapInuse' =
       (let cutoff = now' - sint (DeleteExpiredAfter (Config (tr b)));
            b1 = b\<lparr>data := Range_deleteExpired (data b) cutoff\<rparr>
        in if (0 < uint (HeapInUseSoftLimit (Config (tr b))) \<and>
               uint (HeapInUseSoftLimit (Config (tr b))) \<le> uint heapInuse') \<or>
              (0 < uint (CountSoftLimit (Config (tr b))) \<and>
               uint (CountSoftLimit (Config (tr b))) \<le> int (Len b1))
           then evictOldest sort_Slice b1 else Inr b1)"
    unfolding janitor_tick_def deleteExpiredBefore_def cut' Let_def
    by (simp add: syncMap_heapInUseOverflow_iff k')
  show ?thesis using t j by (rule conjI)
qed

theorem C9_janitor_tick_witness:
  "Trait_janitor_tick example_Trait 100 0 [50, 95, 200, 300] =
     ([200, 300], Some [(MetricEvict, 1)], [DeleteExpiredCall 90, EvictOldestCall (1 / 10)]) \<and>
   janitor_tick stable_sort_Slice (tr example_store) example_store 17 0 =
     Inr (example_store
           \<lparr>data := [(''a'', \<lparr>K = ''a'', V = 1, E = 40\<rparr>), (''c'', \<lparr>K = ''c'', V = 3, E = 30\<rparr>)],
            tr := (tr example_store)\<lparr>Stat := Some [(MetricEvict, 1)]\<rparr>\<rparr>)"
proof -
  have h1: "DeleteExpired example_Trait = Some (\<lambda>t xs. filter (\<lambda>e. \<not> e < t) xs)"
    by (simp add: example_Trait_def)
  have h2: "EvictOldest example_Trait = Some (\<lambda>f xs. (1, tl xs))"
    by (simp add: example_Trait_def)
  have h3: "TLen example_Trait = Some (\<lambda>xs. int (length xs))"
    by (simp add: example_Trait_def)
  have h4: "sint (DeleteExpiredAfter (TConfig example_Trait)) \<noteq> - 9223372036854775808"
    by (simp add: example_Trait_def zero_Config_def)
  have h5: "uint (CountSoftLimit (TConfig example_Trait)) < 9223372036854775808"
    by (simp add: example_Trait_def zero_Config_def)
  have h6: "sint (DeleteExpiredAfter (Config (tr example_store))) \<noteq> - 9223372036854775808"
    by (simp add: example_store_def zero_Config_def)
  have h7: "uint (CountSoftLimit (Config (tr example_store))) < 9223372036854775808"
    by (simp add: example_store_def zero_Config_def)
  have d: "Range_deleteExpired (data example_store) 12 =
      [(''a'', \<lparr>K = ''a'', V = 1, E = 40\<rparr>), (''c'', \<lparr>K = ''c'', V = 3, E = 30\<rparr>),
       (''d'', \<lparr>K = ''d'', V = 4, E = 20\<rparr>)]"
    by (simp add: Range_deleteExpired_def example_store_def Before_def)
  have e: "evictOldest stable_sort_Slice
      (example_store\<lparr>data := [(''a'', \<lparr>K = ''a'', V = 1, E = 40\<rparr>), (''c'', \<lparr>K = ''c'', V = 3, E = 30\<rparr>),
       (''d'', \<lparr>K = ''d'', V = 4, E = 20\<rparr>)]\<rparr>) =
     Inr (example_store
           \<lparr>data := [(''a'', \<lparr>K = ''a'', V = 1, E = 40\<rparr>), (''c'', \<lparr>K = ''c'', V = 3, E = 30\<rparr>)],
            tr := (tr example_store)\<lparr>Stat := Some [(MetricEvict, 1)]\<rparr>\<rparr>)"
    by (simp add: evictOldest_def evictFraction_of_def example_store_def zero_Config_def
        collect_entries_def stable_sort_Slice_def evictItems_of_def int_of_float_def
        evict_loop.simps stat_Add_def float64_evals)
  have da: "sint (DeleteExpiredAfter (Config (tr example_store))) = 5"
    by (simp add: example_store_def zero_Config_def)
  have hl: "HeapInUseSoftLimit (Config (tr example_store)) = 0"
    by (simp add: example_store_def zero_Config_def)
  have cl: "CountSoftLimit (Config (tr example_store)) = 3"
    by (simp add: example_store_def zero_Config_def)
  note th = C9_janitor_tick [OF h1 h2 h3 h4 h5 h6 h7, where now = 100 and heapInuse = 0
        and s = "[50, 95, 200, 300]" and sort_Slice = stable_sort_Slice and now' = 17
        and heapInuse' = 0]
  have t: "Trait_janitor_tick example_Trait 100 0 [50, 95, 200, 300] =
     ([200, 300], Some [(MetricEvict, 1)], [DeleteExpiredCall 90, EvictOldestCall (1 / 10)])"
    using th [THEN conjunct1]
    by (simp add: example_Trait_def zero_Config_def stat_Add_def float64_evals)
  have x: "janitor_tick stable_sort_Slice (tr example_store) example_store 17 0 =
     Inr (example_store
           \<lparr>data := [(''a'', \<lparr>K = ''a'', V = 1, E = 40\<rparr>), (''c'', \<lparr>K = ''c'', V = 3, E = 30\<rparr>)],
            tr := (tr example_store)\<lparr>Stat := Some [(MetricEvict, 1)]\<rparr>\<rparr>)"
    using th [THEN conjunct2] e
    by (simp add: da d hl cl Len_def)
  show ?thesis using t x by simp
qed

text \<open>
  C9 as stated fails in three places. A count limit of \<open>2\<^sup>6\<^sup>3\<close> is negative once
  converted by \<^verbatim>\<open>int(...)\<close>, so a store of two entries is evicted from. With a
  \<open>DeleteExpiredAfter\<close> of the least \<^verbatim>\<open>int64\<close> the negation wraps and the cutoff is
  \<open>now - 2\<^sup>6\<^sup>3\<close>, not \<open>now + 2\<^sup>6\<^sup>3\<close>. And a \<^verbatim>\<open>Trait\<close> without an \<^verbatim>\<open>EvictOldest\<close> callback
  invokes no eviction although its count limit is reached.
\<close>

theorem C9_limits_and_callbacks_matter:
  "Trait_janitor_tick
      (example_Trait\<lparr>TConfig := zero_Config\<lparr>CountSoftLimit := 9223372036854775808,
                                            DeleteExpiredAfter := 10\<rparr>\<rparr>)
      100 0 [200, 300] =
     ([300], Some [(MetricEvict, 1)], [DeleteExpiredCall 90, EvictOldestCall (1 / 10)]) \<and>
   Trait_janitor_tick
      (example_Trait\<lparr>TConfig := zero_Config\<lparr>DeleteExpiredAfter := - 9223372036854775808\<rparr>\<rparr>)
      100 0 [200, 300] =
     ([200, 300], Some [], [DeleteExpiredCall (100 - 9223372036854775808)]) \<and>
   Trait_janitor_tick (example_Trait\<lparr>EvictOldest := None\<rparr>) 100 0 [200, 300] =
     ([200, 300], Some [], [DeleteExpiredCall 90])"
  by (simp add: Trait_janitor_tick_def Trait_heapInUseOverflow_def Trait_countOverflow_def
      example_Trait_def zero_Config_def stat_Add_def time_Add_def float64_evals)

text \<open>
  In a store with distinct keys \<^verbatim>\<open>deleteExpiredBefore\<close>'s loop removes exactly the
  entries that expired before the cutoff.
\<close>

lemma Range_deleteExpired_filter:
  assumes dist: "distinct (map fst d)"
  shows "Range_deleteExpired d t = filter (\<lambda>p. \<not> Before (E (snd p)) t) d"
proof -
  let ?step = "\<lambda>d (key, cacheEntry). if Before (E cacheEntry) t then AList.delete key d else d"
  have g: "set ys \<subseteq> set d \<Longrightarrow> set d' \<subseteq> set d \<Longrightarrow>
      foldl ?step d' ys = filter (\<lambda>p. \<not> (p \<in> set ys \<and> Before (E (snd p)) t)) d'" for ys d'
  proof (induction ys arbitrary: d')
    case Nil
    then show ?case by simp
  next
    case (Cons y ys)
    obtain k e where y: "y = (k, e)" by (cases y)
    have yd: "y \<in> set d" using Cons.prems(1) by simp
    have uniq: "p = y" if "p \<in> set d" and "fst p = k" for p
      using that yd dist y by (metis eq_key_imp_eq_value prod.collapse fst_conv)
    show ?case
    proof (cases "Before (E e) t")
      case True
      have d2: "set (AList.delete k d') \<subseteq> set d"
        using Cons.prems(2) by (auto simp add: AList.delete_eq)
      have "foldl ?step d' (y # ys) = foldl ?step (AList.delete k d') ys"
        using True y by simp
      also have "\<dots> = filter (\<lambda>p. \<not> (p \<in> set ys \<and> Before (E (snd p)) t)) (AList.delete k d')"
        using Cons.IH [OF _ d2] Cons.prems(1) by simp
      also have "\<dots> = filter (\<lambda>p. \<not> (p \<in> set (y # ys) \<and> Before (E (snd p)) t)) d'"
        unfolding AList.delete_eq filter_filter
      proof (rule filter_cong [OF refl])
        fix p assume "p \<in> set d'"
        then have pd: "p \<in> set d" using Cons.prems(2) by blast
        show "((case p of (k', uu) \<Rightarrow> k \<noteq> k') \<and> \<not> (p \<in> set ys \<and> Before (E (snd p)) t)) =
              (\<not> (p \<in> set (y # ys) \<and> Before (E (snd p)) t))"
          using uniq [OF pd] True y by (cases p) auto
      qed
      finally show ?thesis .
    next
      case False
      have "foldl ?step d' (y # ys) = foldl ?step d' ys" using False y by simp
      also have "\<dots> = filter (\<lambda>p. \<not> (p \<in> set ys \<and> Before (E (snd p)) t)) d'"
        using Cons.IH [OF _ Cons.prems(2)] Cons.prems(1) by simp
      also have "\<dots> = filter (\<lambda>p. \<not> (p \<in> set (y # ys) \<and> Before (E (snd p)) t)) d'"
        using False y by (intro filter_cong [OF refl]) auto
      finally show ?thesis .
    qed
  qed
  show ?thesis
    using g [of d d] by (auto simp add: Range_deleteExpired_def intro: filter_cong)
qed

subsection \<open>The store's invariant\<close>

lemma list_all_update:
  "list_all P d \<Longrightarrow> P (k, v) \<Longrightarrow> list_all P (AList.update k v d)"
  by (induction d) auto

lemma store_inv_NewSyncMap: "store_inv (NewSyncMap options)"
  by (simp add: store_inv_def NewSyncMap_def)

lemma store_inv_Write: "store_inv c \<Longrightarrow> store_inv (snd (Write c ctx k v rnd now))"
  by (simp add: store_inv_def Write_def distinct_update list_all_update)

lemma store_inv_Delete: "store_inv c \<Longrightarrow> store_inv (snd (Delete c ctx key))"
proof -
  have "set (AList.delete key (data c)) \<subseteq> set (data c)"
    by (auto simp add: AList.delete_eq)
  then show "store_inv c \<Longrightarrow> store_inv (snd (Delete c ctx key))"
    by (auto simp add: store_inv_def Delete_def distinct_delete list_all_iff)
qed

lemma store_inv_ExpireAll: "store_inv c \<Longrightarrow> store_inv (ExpireAll c ctx now)"
  by (auto simp add: store_inv_def ExpireAll_def list_all_iff comp_def case_prod_unfold)

text \<open>
  \<^verbatim>\<open>Restore\<close> does not keep it: after the keys \<open>never\<close> and \<open>soon\<close> the entry stored under
  \<open>never\<close> has the key bytes \<open>soonr\<close>.
\<close>

lemma Restore_never_soon:
  "snd (snd (Restore (NewSyncMap [\<lambda>cfg. cfg\<lparr>EvictFraction := 1 / 2\<rparr>])
        [Decoded \<lparr>K = ''never'', V = (1 :: nat), E = 5000\<rparr>,
         Decoded \<lparr>K = ''soon'', V = 2, E = 6000\<rparr>])) =
   (NewSyncMap [\<lambda>cfg. cfg\<lparr>EvictFraction := 1 / 2\<rparr>])
      \<lparr>data := [(''never'', \<lparr>K = ''soonr'', V = 1, E = 5000\<rparr>),
                (''soon'', \<lparr>K = ''soon'', V = 2, E = 6000\<rparr>)]\<rparr>"
  by (simp add: Restore_def decode_K_def NewSyncMap_def Let_def)

lemma store_inv_not_Restore:
  "\<not> store_inv (snd (snd (Restore (NewSyncMap [\<lambda>cfg. cfg\<lparr>EvictFraction := 1 / 2\<rparr>])
        [Decoded \<lparr>K = ''never'', V = (1 :: nat), E = 5000\<rparr>,
         Decoded \<lparr>K = ''soon'', V = 2, E = 6000\<rparr>])))"
  by (subst Restore_never_soon) (simp add: store_inv_def)

subsection \<open>Eviction\<close>

lemma evict_loop_eq:
  "evictItems \<le> int (length entries) \<Longrightarrow>
   evict_loop entries evictItems i d =
     Inr (foldl (\<lambda>d k. AList.delete k d) d (map fst (drop i (take (nat evictItems) entries))))"
proof (induction entries evictItems i d rule: evict_loop.induct)
  case (1 entries evictItems i d)
  show ?case
  proof (cases "int i < evictItems")
    case True
    then have il: "i < length entries" using "1.prems" by linarith
    have it: "i < length (take (nat evictItems) entries)" using True il by simp
    have dr: "drop i (take (nat evictItems) entries) =
        (entries ! i) # drop (Suc i) (take (nat evictItems) entries)"
      using Cons_nth_drop_Suc [OF it] True by simp
    show ?thesis
      using True il "1.IH" [OF True il "1.prems"]
      by (subst evict_loop.simps) (simp add: dr)
  next
    case False
    then show ?thesis by (subst evict_loop.simps) simp
  qed
qed

lemma foldl_delete_filter:
  "foldl (\<lambda>d k. AList.delete k d) d ks = filter (\<lambda>p. fst p \<notin> set ks) d"
proof (induction ks arbitrary: d)
  case Nil
  then show ?case by simp
next
  case (Cons a ks)
  have "foldl (\<lambda>d k. AList.delete k d) (AList.delete a d) ks =
      filter (\<lambda>p. fst p \<notin> set ks) (AList.delete a d)"
    by (rule Cons.IH)
  also have "\<dots> = filter (\<lambda>p. fst p \<notin> set (a # ks)) d"
    by (auto simp add: AList.delete_eq intro: filter_cong)
  finally show ?case by simp
qed

lemma length_filter_keys:
  assumes "distinct (map fst d)" and "S \<subseteq> fst ` set d"
  shows "length (filter (\<lambda>p. fst p \<notin> S) d) = length d - card S"
proof -
  have dk: "distinct (map fst (filter (\<lambda>p. fst p \<in> S) d))"
    using assms(1) by (simp add: distinct_map_filter)
  have "set (map fst (filter (\<lambda>p. fst p \<in> S) d)) = S"
    using assms(2) by force
  then have "card S = length (map fst (filter (\<lambda>p. fst p \<in> S) d))"
    using distinct_card [OF dk] by simp
  then have c: "card S = length (filter (\<lambda>p. fst p \<in> S) d)" by simp
  have "length (filter (\<lambda>p. fst p \<in> S) d) + length (filter (\<lambda>p. \<not> fst p \<in> S) d) = length d"
    by (rule sum_length_filter_compl)
  then show ?thesis using c by simp
qed

lemma collect_keys:
  "store_inv c \<Longrightarrow> map fst (collect_entries (data c)) = map fst (data c)"
  by (auto simp add: store_inv_def collect_entries_def list_all_iff)

lemma sorted_keys:
  assumes "store_inv c" and "sort_Slice_contract srt"
  shows "distinct (map fst (srt en_less (collect_entries (data c))))"
    and "set (srt en_less (collect_entries (data c))) = set (collect_entries (data c))"
    and "length (srt en_less (collect_entries (data c))) = length (data c)"
proof -
  let ?xs = "collect_entries (data c)"
  have m: "mset (srt en_less ?xs) = mset ?xs"
    using assms(2) by (simp add: sort_Slice_contract_def)
  then have "mset (map fst (srt en_less ?xs)) = mset (map fst ?xs)"
    by simp
  moreover have "distinct (map fst ?xs)"
    using assms(1) by (simp add: collect_keys) (simp add: store_inv_def)
  ultimately show "distinct (map fst (srt en_less ?xs))"
    by (metis mset_eq_imp_distinct_iff)
  show "set (srt en_less ?xs) = set ?xs" using m by (rule mset_eq_setD)
  show "length (srt en_less ?xs) = length (data c)"
    using mset_eq_length [OF m] by (simp add: collect_entries_def)
qed

text \<open>
  The count \<^verbatim>\<open>int(float64(len) * evictFraction)\<close>: below \<open>2\<^sup>5\<^sup>3\<close> entries the conversion
  of the length is exact, and with a fraction in \<open>[0, 1]\<close> the rounded product stays
  between \<open>0\<close> and the length.
\<close>

lemma evictItems_of_fraction:
  assumes "0 \<le> f" and "f \<le> 1" and "n < 9007199254740992"
  shows "evictItems_of n f = \<lfloor>float64_round (real n * float64_round f)\<rfloor>"
    and "0 \<le> evictItems_of n f" and "evictItems_of n f \<le> int n"
    and "float64_of_int (evictItems_of n f) = real_of_int (evictItems_of n f)"
proof -
  have nb: "\<bar>int n\<bar> < 2 ^ 53" using assms(3) by simp
  have cn: "float64_round (real n) = real n"
    using float64_round_of_int [OF nb] by simp
  have one: "(1 :: nat) < 2 ^ 53" by simp
  have f0: "0 \<le> float64_round f" using float64_round_bounds(1) [of f 1] assms(1,2) by simp
  have f1: "float64_round f \<le> 1" using float64_round_bounds(2) [of f 1] assms(1,2) by simp
  let ?p = "real n * float64_round f"
  have p0: "0 \<le> ?p" using f0 by simp
  have p1: "?p \<le> real n" using f1 by (simp add: mult_left_le)
  have n53: "n < 2 ^ 53" using assms(3) by simp
  have r0: "0 \<le> float64_round ?p" using float64_round_bounds(1) [OF p0 p1 n53] .
  have r1: "float64_round ?p \<le> real n" using float64_round_bounds(2) [OF p0 p1 n53] .
  have m: "float64_mul (float64_of_int (int n)) f = float64_round ?p"
    by (simp add: float64_mul_def float64_of_int_def cn)
  show e: "evictItems_of n f = \<lfloor>float64_round ?p\<rfloor>"
    using r0 by (simp add: evictItems_of_def m int_of_float_def)
  show i0: "0 \<le> evictItems_of n f" using r0 e by simp
  have "\<lfloor>float64_round ?p\<rfloor> \<le> \<lfloor>real n\<rfloor>" using r1 by (rule floor_mono)
  then show i1: "evictItems_of n f \<le> int n" using e by simp
  have "\<bar>evictItems_of n f\<bar> < 2 ^ 53" using i0 i1 assms(3) by simp
  then show "float64_of_int (evictItems_of n f) = real_of_int (evictItems_of n f)"
    unfolding float64_of_int_def by (rule float64_round_of_int)
qed

lemma evictOldest_eq:
  assumes inv: "store_inv c" and srt: "sort_Slice_contract srt"
    and f0: "0 \<le> EvictFraction (Config (tr c))" and f1: "EvictFraction (Config (tr c)) \<le> 1"
    and small: "Len c < 9007199254740992"
  shows "evictOldest srt c =
     Inr (c\<lparr>data := filter (\<lambda>p. fst p \<notin> fst ` set (take (nat (evictItems_of (Len c) (evictFraction_of c)))
                         (srt en_less (collect_entries (data c))))) (data c),
            tr := (tr c)\<lparr>Stat := stat_Add (Stat (tr c)) MetricEvict
                      (real_of_int (evictItems_of (Len c) (evictFraction_of c)))\<rparr>\<rparr>)"
proof -
  let ?es = "srt en_less (collect_entries (data c))"
  let ?f = "evictFraction_of c"
  let ?n = "evictItems_of (Len c) ?f"
  have fr: "0 \<le> ?f" "?f \<le> 1" using f0 f1 by (auto simp add: evictFraction_of_def)
  have len: "length ?es = Len c" using sorted_keys(3) [OF inv srt] by (simp add: Len_def)
  have le: "?n \<le> int (length ?es)"
    using evictItems_of_fraction(3) [OF fr small] by (simp add: len)
  have st: "float64_of_int ?n = real_of_int ?n"
    by (rule evictItems_of_fraction(4) [OF fr small])
  have el: "evict_loop ?es ?n 0 (data c) =
      Inr (filter (\<lambda>p. fst p \<notin> fst ` set (take (nat ?n) ?es)) (data c))"
    using evict_loop_eq [OF le, of 0 "data c"] by (simp add: foldl_delete_filter)
  show ?thesis
    unfolding evictOldest_def Let_def len
    by (simp add: el st)
qed

lemma stable_sort_Slice_contract: "sort_Slice_contract stable_sort_Slice"
proof -
  have "sorted_wrt (\<lambda>a b. \<not> en_less b a) (sort_key snd xs)" for xs :: "en list"
  proof -
    have "sorted (map snd (sort_key snd xs))" by (rule sorted_sort_key)
    then have "sorted_wrt (\<lambda>a b. snd a \<le> snd b) (sort_key snd xs)"
      by (simp add: sorted_map)
    moreover have "(\<lambda>a b :: en. \<not> en_less b a) = (\<lambda>a b. snd a \<le> snd b)"
      by (simp add: en_less_def Before_def not_less)
    ultimately show ?thesis by simp
  qed
  then show ?thesis
    by (simp add: sort_Slice_contract_def stable_sort_Slice_def)
qed

text \<open>
  C5 (as amended). For a well-keyed store of fewer than \<open>2\<^sup>5\<^sup>3\<close> entries, an evict
  fraction in \<open>[0, 1]\<close> and any sorting function that meets the contract of
  \<^verbatim>\<open>sort.Slice\<close>, \<^verbatim>\<open>evictOldest\<close> does not panic. With \<open>n\<close> the \<^verbatim>\<open>float64\<close> product of the
  length and the fraction, truncated, which lies between \<open>0\<close> and the length, it deletes
  the entries whose keys are the first \<open>n\<close> of the snapshot sorted ascending by
  expiration, which are exactly \<open>n\<close> entries; every deleted entry expires no later than
  every entry kept; and the eviction count it publishes is \<open>n\<close>.
\<close>

theorem C5_evictOldest:
  assumes inv: "store_inv c" and srt: "sort_Slice_contract sort_Slice"
    and f0: "0 \<le> EvictFraction (Config (tr c))" and f1: "EvictFraction (Config (tr c)) \<le> 1"
    and small: "Len c < 9007199254740992"
  shows "\<exists>n c'. n = \<lfloor>float64_round (real (Len c) * float64_round (evictFraction_of c))\<rfloor> \<and>
      0 \<le> n \<and> n \<le> int (Len c) \<and>
      evictOldest sort_Slice c = Inr c' \<and>
      data c' = filter (\<lambda>p. fst p \<notin> fst ` set (take (nat n)
                         (sort_Slice en_less (collect_entries (data c))))) (data c) \<and>
      Len c' = Len c - nat n \<and>
      Stat (tr c') = stat_Add (Stat (tr c)) MetricEvict (real_of_int n) \<and>
      (\<forall>x \<in> set (data c) - set (data c'). \<forall>y \<in> set (data c'). E (snd x) \<le> E (snd y))"
proof -
  let ?es = "sort_Slice en_less (collect_entries (data c))"
  let ?i = "evictItems_of (Len c) (evictFraction_of c)"
  let ?n = "nat ?i"
  let ?S = "fst ` set (take ?n ?es)"
  let ?d' = "filter (\<lambda>p. fst p \<notin> ?S) (data c)"
  let ?c' = "c\<lparr>data := ?d', tr := (tr c)\<lparr>Stat := stat_Add (Stat (tr c)) MetricEvict
                      (real_of_int ?i)\<rparr>\<rparr>"
  have fr: "0 \<le> evictFraction_of c" "evictFraction_of c \<le> 1"
    using f0 f1 by (auto simp add: evictFraction_of_def)
  have ie: "?i = \<lfloor>float64_round (real (Len c) * float64_round (evictFraction_of c))\<rfloor>"
    by (rule evictItems_of_fraction(1) [OF fr small])
  have i0: "0 \<le> ?i" by (rule evictItems_of_fraction(2) [OF fr small])
  have i1: "?i \<le> int (Len c)" by (rule evictItems_of_fraction(3) [OF fr small])
  have dist: "distinct (map fst ?es)" by (rule sorted_keys(1) [OF inv srt])
  have sets: "set ?es = set (collect_entries (data c))" by (rule sorted_keys(2) [OF inv srt])
  have len: "length ?es = length (data c)" by (rule sorted_keys(3) [OF inv srt])
  have nle: "?n \<le> length ?es" using i1 by (simp add: len Len_def)
  have ev: "evictOldest sort_Slice c = Inr ?c'" by (rule evictOldest_eq [OF inv srt f0 f1 small])
  have "set (map fst ?es) = set (map fst (collect_entries (data c)))"
    using sets by simp
  then have keys: "fst ` set ?es = fst ` set (data c)"
    using collect_keys [OF inv] by simp
  have sub: "?S \<subseteq> fst ` set (data c)"
    using keys set_take_subset [of ?n ?es] by blast
  have "distinct (take ?n (map fst ?es))" using dist by (rule distinct_take)
  then have "card (set (take ?n (map fst ?es))) = length (take ?n (map fst ?es))"
    by (rule distinct_card)
  moreover have "set (take ?n (map fst ?es)) = ?S" by (simp add: take_map)
  ultimately have card: "card ?S = ?n" using nle by simp
  have dd: "distinct (map fst (data c))" using inv by (simp add: store_inv_def)
  have l: "Len ?c' = Len c - ?n"
    using length_filter_keys [OF dd sub] card by (simp add: Len_def)
  have sorted: "sorted_wrt (\<lambda>a b. \<not> en_less b a) (take ?n ?es @ drop ?n ?es)"
    using srt by (simp add: sort_Slice_contract_def)
  have mem: "(fst p, E (snd p)) \<in> set ?es" if "p \<in> set (data c)" for p
  proof -
    have "K (snd p) = fst p" using inv that by (auto simp add: store_inv_def list_all_iff)
    moreover have "(\<lambda>(key, i). (K i, E i)) p \<in> (\<lambda>(key, i). (K i, E i)) ` set (data c)"
      using that by (rule imageI)
    ultimately have "(fst p, E (snd p)) \<in> set (collect_entries (data c))"
      by (simp add: collect_entries_def case_prod_unfold)
    then show ?thesis using sets by simp
  qed
  have old: "E (snd x) \<le> E (snd y)"
    if x: "x \<in> set (data c) - set ?d'" and y: "y \<in> set ?d'" for x y
  proof -
    from x have xd: "x \<in> set (data c)" and xs: "fst x \<in> ?S" by auto
    from y have yd: "y \<in> set (data c)" and ys: "fst y \<notin> ?S" by auto
    from xs obtain a where a: "a \<in> set (take ?n ?es)" and fa: "fst a = fst x" by auto
    obtain v where av: "a = (fst x, v)" using fa by (cases a) simp
    have "(fst x, v) \<in> set ?es" using a av in_set_takeD by fastforce
    then have "v = E (snd x)"
      using mem [OF xd] dist by (rule_tac eq_key_imp_eq_value)
    then have xt: "(fst x, E (snd x)) \<in> set (take ?n ?es)" using a av by simp
    have "set ?es = set (take ?n ?es) \<union> set (drop ?n ?es)"
      by (metis append_take_drop_id set_append)
    then have "(fst y, E (snd y)) \<in> set (take ?n ?es) \<union> set (drop ?n ?es)"
      using mem [OF yd] by simp
    moreover have "(fst y, E (snd y)) \<notin> set (take ?n ?es)"
    proof
      assume "(fst y, E (snd y)) \<in> set (take ?n ?es)"
      then have "fst (fst y, E (snd y)) \<in> ?S" by (rule imageI)
      then show False using ys by simp
    qed
    ultimately have yt: "(fst y, E (snd y)) \<in> set (drop ?n ?es)" by blast
    have "\<not> en_less (fst y, E (snd y)) (fst x, E (snd x))"
      using sorted xt yt unfolding sorted_wrt_append by blast
    then show ?thesis by (simp add: en_less_def Before_def)
  qed
  show ?thesis
  proof (intro exI [of _ ?i] exI [of _ ?c'] conjI ballI)
    show "?i = \<lfloor>float64_round (real (Len c) * float64_round (evictFraction_of c))\<rfloor>" by (rule ie)
    show "0 \<le> ?i" by (rule i0)
    show "?i \<le> int (Len c)" by (rule i1)
    show "evictOldest sort_Slice c = Inr ?c'" by (rule ev)
    show "data ?c' = ?d'" by simp
    show "Len ?c' = Len c - ?n" by (rule l)
    show "Stat (tr ?c') = stat_Add (Stat (tr c)) MetricEvict (real_of_int ?i)" by simp
    fix x y
    assume "x \<in> set (data c) - set (data ?c')" and "y \<in> set (data ?c')"
    then show "E (snd x) \<le> E (snd y)" using old by simp
  qed
qed

theorem C5_evictOldest_witness:
  "\<exists>n c'. n = 2 \<and> evictOldest stable_sort_Slice example_store = Inr c' \<and>
      data c' = [(''a'', \<lparr>K = ''a'', V = 1, E = 40\<rparr>), (''c'', \<lparr>K = ''c'', V = 3, E = 30\<rparr>)] \<and>
      Len c' = 2 \<and>
      Stat (tr c') = Some [(MetricEvict, 2)]"
proof -
  have inv: "store_inv example_store"
    by (simp add: store_inv_def example_store_def)
  have f0: "0 \<le> EvictFraction (Config (tr example_store))"
    by (simp add: example_store_def zero_Config_def)
  have f1: "EvictFraction (Config (tr example_store)) \<le> 1"
    by (simp add: example_store_def zero_Config_def)
  have l: "Len example_store = 4" by (simp add: Len_def example_store_def)
  have small: "Len example_store < 9007199254740992" by (simp add: l)
  have ef: "evictFraction_of example_store = 1 / 2"
    by (simp add: evictFraction_of_def example_store_def zero_Config_def)
  have n: "\<lfloor>float64_round (real (Len example_store) *
              float64_round (evictFraction_of example_store))\<rfloor> = 2"
    by (simp add: l ef float64_evals)
  have es: "take 2 (stable_sort_Slice en_less (collect_entries (data example_store))) =
      [(''b'', 10), (''d'', 20)]"
    by (simp add: stable_sort_Slice_def collect_entries_def example_store_def)
  have st: "Stat (tr example_store) = Some []" by (simp add: example_store_def)
  from C5_evictOldest [OF inv stable_sort_Slice_contract f0 f1 small]
  obtain c' where c': "evictOldest stable_sort_Slice example_store = Inr c'"
    "data c' = filter (\<lambda>p. fst p \<notin> fst ` set (take (nat 2)
        (stable_sort_Slice en_less (collect_entries (data example_store))))) (data example_store)"
    "Len c' = Len example_store - nat 2"
    "Stat (tr c') = stat_Add (Stat (tr example_store)) MetricEvict (real_of_int 2)"
    unfolding n by blast
  have d: "data c' = [(''a'', \<lparr>K = ''a'', V = 1, E = 40\<rparr>), (''c'', \<lparr>K = ''c'', V = 3, E = 30\<rparr>)]"
    using c'(2) by (simp add: es) (simp add: example_store_def)
  have "Len c' = 2" using c'(3) by (simp add: l)
  moreover have "Stat (tr c') = Some [(MetricEvict, 2)]"
    using c'(4) by (simp add: st stat_Add_def)
  ultimately show ?thesis using c'(1) d by blast
qed

text \<open>
  C5 as stated fails. Nothing orders entries of unlimited lifetime last: in a store
  that holds an entry written with the override \<open>UnlimitedTTL\<close> and one written with a
  TTL of 5000 ns, evicting one half removes the unlimited one. And the count is the
  rounded \<^verbatim>\<open>float64\<close> product, not the floor of the product: of ten entries with the
  fraction \<^verbatim>\<open>0.7\<close> seven are deleted, while ten times that fraction is below \<open>7\<close>. The
  sort used here is stable, so the outcome does not depend on how \<^verbatim>\<open>sort.Slice\<close> orders
  ties. (\<^verbatim>\<open>evictOldest\<close> also returns no value.)
\<close>

theorem C5_unlimited_entry_evicted_first:
  "evictOldest stable_sort_Slice
     (snd (Write (snd (Write (NewSyncMap [\<lambda>cfg. cfg\<lparr>EvictFraction := 1 / 2\<rparr>])
                         \<lparr>TTL = UnlimitedTTL, SkipRead = False\<rparr> ''k1'' (1 :: nat) (1 / 2) 1000))
              \<lparr>TTL = 5000, SkipRead = False\<rparr> ''k2'' 2 (1 / 2) 1000)) =
   Inr ((NewSyncMap [\<lambda>cfg. cfg\<lparr>EvictFraction := 1 / 2\<rparr>])
          \<lparr>data := [(''k2'', \<lparr>K = ''k2'', V = 2, E = 6000\<rparr>)]\<rparr>) \<and>
   evictOldest stable_sort_Slice example_store10 =
   Inr (example_store10
          \<lparr>data := [(''k7'', \<lparr>K = ''k7'', V = 7, E = 80\<rparr>), (''k8'', \<lparr>K = ''k8'', V = 8, E = 90\<rparr>),
                    (''k9'', \<lparr>K = ''k9'', V = 9, E = 100\<rparr>)],
           tr := (tr example_store10)\<lparr>Stat := Some [(MetricEvict, 7)]\<rparr>\<rparr>) \<and>
   \<lfloor>real (Len example_store10) * evictFraction_of example_store10\<rfloor> = 6"
proof -
  have a: "evictOldest stable_sort_Slice
     (snd (Write (snd (Write (NewSyncMap [\<lambda>cfg. cfg\<lparr>EvictFraction := 1 / 2\<rparr>])
                         \<lparr>TTL = UnlimitedTTL, SkipRead = False\<rparr> ''k1'' (1 :: nat) (1 / 2) 1000))
              \<lparr>TTL = 5000, SkipRead = False\<rparr> ''k2'' 2 (1 / 2) 1000)) =
   Inr ((NewSyncMap [\<lambda>cfg. cfg\<lparr>EvictFraction := 1 / 2\<rparr>])
          \<lparr>data := [(''k2'', \<lparr>K = ''k2'', V = 2, E = 6000\<rparr>)]\<rparr>)"
    by (simp add: op_defs const_defs evictOldest_def evictFraction_of_def evictItems_of_def
        collect_entries_def stable_sort_Slice_def evict_loop.simps)
  have nz: "float64_round (7 / 10) \<noteq> 0" by (simp add: float64_round_seven_tenths)
  have ef: "evictFraction_of example_store10 = float64_round (7 / 10)"
    using nz by (simp add: evictFraction_of_def example_store10_def zero_Config_def)
  have l: "Len example_store10 = 10" by (simp add: Len_def example_store10_def)
  have ten: "float64_round 10 = 10" by (simp add: float64_round_numeral)
  have seven: "float64_round 7 = 7" by (simp add: float64_round_numeral)
  have n: "evictItems_of 10 (float64_round (7 / 10)) = 7"
    by (simp add: evictItems_of_def float64_mul_def float64_of_int_def int_of_float_def ten
        float64_round_seven_tenths_idem float64_round_ten_times_seven_tenths)
  have es: "stable_sort_Slice en_less (collect_entries (data example_store10)) =
      [(''k0'', 10), (''k1'', 20), (''k2'', 30), (''k3'', 40), (''k4'', 50), (''k5'', 60),
       (''k6'', 70), (''k7'', 80), (''k8'', 90), (''k9'', 100)]"
    by (simp add: stable_sort_Slice_def collect_entries_def example_store10_def)
  have len: "length [(''k0'', 10 :: Time), (''k1'', 20), (''k2'', 30), (''k3'', 40), (''k4'', 50),
       (''k5'', 60), (''k6'', 70), (''k7'', 80), (''k8'', 90), (''k9'', 100)] = 10"
    by simp
  have b: "evictOldest stable_sort_Slice example_store10 =
   Inr (example_store10
          \<lparr>data := [(''k7'', \<lparr>K = ''k7'', V = 7, E = 80\<rparr>), (''k8'', \<lparr>K = ''k8'', V = 8, E = 90\<rparr>),
                    (''k9'', \<lparr>K = ''k9'', V = 9, E = 100\<rparr>)],
           tr := (tr example_store10)\<lparr>Stat := Some [(MetricEvict, 7)]\<rparr>\<rparr>)"
    unfolding evictOldest_def ef Let_def es len n
    by (simp add: example_store10_def evict_loop.simps stat_Add_def float64_of_int_def seven)
  have c: "\<lfloor>real (Len example_store10) * evictFraction_of example_store10\<rfloor> = 6"
    unfolding l ef by (simp add: float64_round_seven_tenths)
  show ?thesis using a b c by (intro conjI)
qed

text \<open>
  The bound on the fraction matters: with a fraction above \<open>1\<close> the loop indexes
  past the end of the snapshot and panics.
\<close>

lemma evictOldest_fraction_above_one_panics:
  "evictOldest stable_sort_Slice
     (example_store\<lparr>tr := \<lparr>Config = zero_Config\<lparr>EvictFraction := 2\<rparr>, Stat = None\<rparr>\<rparr>) =
   Inl IndexOutOfRange"
  by (simp add: evictOldest_def evictFraction_of_def example_store_def zero_Config_def
      collect_entries_def stable_sort_Slice_def evictItems_of_def int_of_float_def
      evict_loop.simps stat_Add_def float64_evals)

text \<open>
  So does the store being well keyed: \<^verbatim>\<open>evictOldest\<close> deletes by the entry's own key
  bytes, and after \<^verbatim>\<open>Restore\<close> has stored the keys \<open>never\<close> and \<open>soon\<close> the oldest entry is
  deleted under \<open>soonr\<close>, which removes nothing.
\<close>

lemma evictOldest_after_Restore_deletes_nothing:
  "evictOldest stable_sort_Slice
     (snd (snd (Restore (NewSyncMap [\<lambda>cfg. cfg\<lparr>EvictFraction := 1 / 2\<rparr>])
        [Decoded \<lparr>K = ''never'', V = (1 :: nat), E = 5000\<rparr>,
         Decoded \<lparr>K = ''soon'', V = 2, E = 6000\<rparr>]))) =
   Inr ((NewSyncMap [\<lambda>cfg. cfg\<lparr>EvictFraction := 1 / 2\<rparr>])
      \<lparr>data := [(''never'', \<lparr>K = ''soonr'', V = 1, E = 5000\<rparr>),
                (''soon'', \<lparr>K = ''soon'', V = 2, E = 6000\<rparr>)]\<rparr>)"
  by (subst Restore_never_soon)
    (simp add: op_defs const_defs evictOldest_def evictFraction_of_def evictItems_of_def
      collect_entries_def stable_sort_Slice_def evict_loop.simps)

end
